theory Spec2Isabelle
  imports Complex_Main
begin

chapter \<open>Better Export PDF: the export dialog and the document transformer\<close>

text \<open>
  A shallow embedding of \<^verbatim>\<open>modal.ts\<close> (the export dialog, class
  \<^verbatim>\<open>ExportConfigModal\<close>) and \<^verbatim>\<open>render.ts\<close> (the document
  transformer). Strings are character lists, DOM trees are a datatype, documents live in
  an explicit heap, and everything the host application or the browser supplies
  (the Markdown renderer, \<^verbatim>\<open>innerHTML\<close>, \<^verbatim>\<open>encodeURIComponent\<close>, the
  page-size table, ...) is a parameter of the definition that uses it.
\<close>

section \<open>Strings\<close>

text \<open>\<^verbatim>\<open>String.prototype.split\<close> with a separator: every segment is kept, empty ones too,
  and the empty string splits into one empty segment.\<close>

fun splitWhere :: "(char \<Rightarrow> bool) \<Rightarrow> string \<Rightarrow> string list" where
  "splitWhere P [] = [[]]"
| "splitWhere P (c # cs) =
     (if P c then [] # splitWhere P cs
      else (case splitWhere P cs of [] \<Rightarrow> [[c]] | s # ss \<Rightarrow> (c # s) # ss))"

definition splitOn :: "char \<Rightarrow> string \<Rightarrow> string list" where
  "splitOn sep s = splitWhere (\<lambda>c. c = sep) s"

definition startsWith :: "string \<Rightarrow> string \<Rightarrow> bool" where
  "startsWith s p = (take (length p) s = p)"

text \<open>\<^verbatim>\<open>String.prototype.indexOf\<close>: the position of the first occurrence.\<close>

fun indexOf :: "string \<Rightarrow> string \<Rightarrow> nat option" where
  "indexOf [] p = (if p = [] then Some 0 else None)"
| "indexOf (c # cs) p =
     (if startsWith (c # cs) p then Some 0 else map_option Suc (indexOf cs p))"

definition str_includes :: "string \<Rightarrow> string \<Rightarrow> bool" where
  "str_includes s p = (indexOf s p \<noteq> None)"

text \<open>The replacement text of \<^verbatim>\<open>String.prototype.replace\<close> for a string pattern
  (ECMAScript's GetSubstitution with no capture groups): \<^verbatim>\<open>$$\<close> is a dollar sign,
  \<^verbatim>\<open>$&\<close> the matched text, \<^verbatim>\<open>$`\<close> the text before the match, \<^verbatim>\<open>$'\<close> the text
  after it; every other character, a dollar sign included, stands for itself.\<close>

fun getSubstitution :: "string \<Rightarrow> string \<Rightarrow> string \<Rightarrow> string \<Rightarrow> string" where
  "getSubstitution m pre post [] = []"
| "getSubstitution m pre post [c] = [c]"
| "getSubstitution m pre post (c # d # r) =
     (if c = CHR ''$'' \<and> d = CHR ''$'' then CHR ''$'' # getSubstitution m pre post r
      else if c = CHR ''$'' \<and> d = CHR ''&'' then m @ getSubstitution m pre post r
      else if c = CHR ''$'' \<and> d = CHR 0x60 then pre @ getSubstitution m pre post r
      else if c = CHR ''$'' \<and> d = CHR 0x27 then post @ getSubstitution m pre post r
      else c # getSubstitution m pre post (d # r))"

text \<open>\<^verbatim>\<open>s.replace(pat, repl)\<close> with a string pattern: the first occurrence only.\<close>

definition replaceFirst :: "string \<Rightarrow> string \<Rightarrow> string \<Rightarrow> string" where
  "replaceFirst s pat repl =
     (case indexOf s pat of
        None \<Rightarrow> s
      | Some k \<Rightarrow>
          take k s
          @ getSubstitution pat (take k s) (drop (k + length pat) s) repl
          @ drop (k + length pat) s)"

text \<open>\<^verbatim>\<open>Array.prototype.join\<close>: a hole or \<^verbatim>\<open>undefined\<close> element (\<open>None\<close>) prints as
  the empty string.\<close>

fun joinWith :: "string \<Rightarrow> string option list \<Rightarrow> string" where
  "joinWith sep [] = []"
| "joinWith sep [x] = (case x of None \<Rightarrow> [] | Some s \<Rightarrow> s)"
| "joinWith sep (x # y # r) =
     (case x of None \<Rightarrow> [] | Some s \<Rightarrow> s) @ sep @ joinWith sep (y # r)"

section \<open>Texts pasted into a selector or a script\<close>

text \<open>Letters, digits and the space.\<close>

definition plainChar :: "char \<Rightarrow> bool" where
  "plainChar c =
     (let k = (of_char c :: nat)
      in (48 \<le> k \<and> k \<le> 57) \<or> (65 \<le> k \<and> k \<le> 90) \<or> (97 \<le> k \<and> k \<le> 122) \<or> k = 32)"

text \<open>A text of letters, digits, spaces and an odd number of the delimiter \<open>q\<close>. Pasted
  between two \<open>q\<close>, it leaves the last \<open>q\<close> of the whole as the opening of a string (or
  template) that is never closed, with nothing in between that could hide a delimiter.\<close>

definition unterminated :: "char \<Rightarrow> string \<Rightarrow> bool" where
  "unterminated q s =
     (list_all (\<lambda>c. c = q \<or> plainChar c) s \<and> odd (length (filter (\<lambda>c. c = q) s)))"

text \<open>A text that stands for itself between the double quotes of an attribute selector:
  it has no double quote, no backslash, no line break and no NUL.\<close>

definition selectorSafe :: "string \<Rightarrow> bool" where
  "selectorSafe s =
     (CHR 0x22 \<notin> set s \<and> CHR 0x5C \<notin> set s \<and> CHR 0x0A \<notin> set s \<and> CHR 0x0D \<notin> set s
      \<and> CHR 0x0C \<notin> set s \<and> CHR 0x00 \<notin> set s)"

text \<open>A text that stands for itself between the backticks of a template literal: it has
  no backtick, no backslash, no carriage return and no \<^verbatim>\<open>${\<close>.\<close>

definition templateSafe :: "string \<Rightarrow> bool" where
  "templateSafe s =
     (CHR 0x60 \<notin> set s \<and> CHR 0x5C \<notin> set s \<and> CHR 0x0D \<notin> set s \<and> \<not> str_includes s ''${'')"

section \<open>DOM trees\<close>

datatype node =
    Element (tagName: string) (attributes: "(string \<times> string) list") (childNodes: "node list")
  | Text (textData: string)

fun isElement :: "node \<Rightarrow> bool" where
  "isElement (Element t as cs) = True"
| "isElement (Text s) = False"

fun getAttribute :: "string \<Rightarrow> node \<Rightarrow> string option" where
  "getAttribute k (Element t as cs) = map_of as k"
| "getAttribute k (Text s) = None"

fun removeAttribute :: "string \<Rightarrow> node \<Rightarrow> node" where
  "removeAttribute k (Element t as cs) = Element t (filter (\<lambda>kv. fst kv \<noteq> k) as) cs"
| "removeAttribute k (Text s) = Text s"

text \<open>\<^verbatim>\<open>setAttribute\<close>: an existing attribute keeps its place, a new one is appended.\<close>

fun setAttr :: "string \<Rightarrow> string \<Rightarrow> (string \<times> string) list \<Rightarrow> (string \<times> string) list" where
  "setAttr k v [] = [(k, v)]"
| "setAttr k v (kv # as) = (if fst kv = k then (k, v) # as else kv # setAttr k v as)"

fun setAttribute :: "string \<Rightarrow> string \<Rightarrow> node \<Rightarrow> node" where
  "setAttribute k v (Element t as cs) = Element t (setAttr k v as) cs"
| "setAttribute k v (Text s) = Text s"

fun setChildNodes :: "node list \<Rightarrow> node \<Rightarrow> node" where
  "setChildNodes cs' (Element t as cs) = Element t as cs'"
| "setChildNodes cs' (Text s) = Text s"

fun children_of :: "node \<Rightarrow> node list" where
  "children_of (Element t as cs) = cs"
| "children_of (Text s) = []"

definition asciiWhitespace :: "char \<Rightarrow> bool" where
  "asciiWhitespace c = (c = CHR '' '' \<or> c = CHR 0x09 \<or> c = CHR 0x0A \<or> c = CHR 0x0C \<or> c = CHR 0x0D)"

text \<open>A text with its ASCII white space stripped and collapsed, as the getter of
  \<^verbatim>\<open>document.title\<close> returns the text of the title.\<close>

definition stripAndCollapse :: "string \<Rightarrow> string" where
  "stripAndCollapse s =
     joinWith '' '' (map Some (filter (\<lambda>t. t \<noteq> []) (splitWhere asciiWhitespace s)))"

text \<open>\<^verbatim>\<open>classList\<close>: the tokens of the class attribute.\<close>

definition classList :: "node \<Rightarrow> string list" where
  "classList n =
     (case getAttribute ''class'' n of
        None \<Rightarrow> []
      | Some v \<Rightarrow> filter (\<lambda>t. t \<noteq> []) (splitWhere asciiWhitespace v))"

text \<open>The selectors the program uses: \<^verbatim>\<open>.cls\<close>, \<^verbatim>\<open>tag.cls\<close> and
  \<^verbatim>\<open>tag[attr="v"]\<close>.\<close>

datatype selector =
    ClassSel string
  | TagClassSel string string
  | TagAttrSel string string string

fun matches :: "selector \<Rightarrow> node \<Rightarrow> bool" where
  "matches sel (Text s) = False"
| "matches (ClassSel c) (Element t as cs) = (c \<in> set (classList (Element t as cs)))"
| "matches (TagClassSel tg c) (Element t as cs) = (t = tg \<and> c \<in> set (classList (Element t as cs)))"
| "matches (TagAttrSel tg k v) (Element t as cs) = (t = tg \<and> map_of as k = Some v)"

text \<open>A node of a tree is named by its path: the child indices from the root. A path
  plays the part of the object reference the program holds.\<close>

fun nodeAt :: "node \<Rightarrow> nat list \<Rightarrow> node option" where
  "nodeAt n [] = Some n"
| "nodeAt n (i # p) =
     (case n of
        Element t as cs \<Rightarrow> (if i < length cs then nodeAt (cs ! i) p else None)
      | Text s \<Rightarrow> None)"

fun updateAt :: "(node \<Rightarrow> node) \<Rightarrow> nat list \<Rightarrow> node \<Rightarrow> node" where
  "updateAt f [] n = f n"
| "updateAt f (i # p) n =
     (case n of
        Element t as cs \<Rightarrow>
          Element t as (if i < length cs then cs[i := updateAt f p (cs ! i)] else cs)
      | Text s \<Rightarrow> Text s)"

text \<open>\<^verbatim>\<open>querySelectorAll\<close>: the paths of the matching elements in document order
  (\<open>pathsN\<close> counts the node itself, \<open>pathsL\<close> is the search below a node).\<close>

fun pathsN :: "selector \<Rightarrow> node \<Rightarrow> nat list list"
  and pathsL :: "selector \<Rightarrow> nat \<Rightarrow> node list \<Rightarrow> nat list list" where
  "pathsN sel (Text s) = []"
| "pathsN sel (Element t as cs) =
     (if matches sel (Element t as cs) then [[]] else []) @ pathsL sel 0 cs"
| "pathsL sel i [] = []"
| "pathsL sel i (c # cs) = map (Cons i) (pathsN sel c) @ pathsL sel (Suc i) cs"

definition querySelectorAll :: "selector \<Rightarrow> node \<Rightarrow> nat list list" where
  "querySelectorAll sel n = pathsL sel 0 (children_of n)"

definition querySelector :: "selector \<Rightarrow> node \<Rightarrow> nat list option" where
  "querySelector sel n = (case querySelectorAll sel n of [] \<Rightarrow> None | p # ps \<Rightarrow> Some p)"

section \<open>The export configuration\<close>

text \<open>\<^verbatim>\<open>TConfig\<close>. The field \<^verbatim>\<open>open\<close> is \<open>openAfter\<close> here and \<^verbatim>\<open>multiple\<close> is
  \<open>cfgMultiple\<close> (the dialog has a \<^verbatim>\<open>multiple\<close> of its own).\<close>

record TConfig =
  pageSize :: string
  pageWidth :: "string option"
  pageHeight :: "string option"
  marginType :: string
  openAfter :: bool
  landscape :: bool
  scale :: int
  showTitle :: bool
  displayHeader :: bool
  displayFooter :: bool
  marginTop :: "string option"
  marginBottom :: "string option"
  marginLeft :: "string option"
  marginRight :: "string option"
  cssSnippet :: "string option"
  cfgMultiple :: "bool option"

text \<open>A stored previous configuration is an object with any subset of these properties:
  \<open>None\<close> is an absent property.\<close>

record PrevConfig =
  prevPageSize :: "string option"
  prevPageWidth :: "string option"
  prevPageHeight :: "string option"
  prevMarginType :: "string option"
  prevOpen :: "bool option"
  prevLandscape :: "bool option"
  prevScale :: "int option"
  prevShowTitle :: "bool option"
  prevDisplayHeader :: "bool option"
  prevDisplayFooter :: "bool option"
  prevMarginTop :: "string option"
  prevMarginBottom :: "string option"
  prevMarginLeft :: "string option"
  prevMarginRight :: "string option"
  prevCssSnippet :: "string option"
  prevMultiple :: "bool option"

definition emptyPrev :: PrevConfig where
  "emptyPrev =
     \<lparr>prevPageSize = None, prevPageWidth = None, prevPageHeight = None, prevMarginType = None,
      prevOpen = None, prevLandscape = None, prevScale = None, prevShowTitle = None,
      prevDisplayHeader = None, prevDisplayFooter = None, prevMarginTop = None,
      prevMarginBottom = None, prevMarginLeft = None, prevMarginRight = None,
      prevCssSnippet = None, prevMultiple = None\<rparr>"

text \<open>The plugin settings the dialog reads. The record is extensible: a value of
  \<open>'a Settings_scheme\<close> may carry any further settings.\<close>

record Settings =
  setShowTitle :: "bool option"
  setDisplayHeader :: "bool option"
  isTimestamp :: bool
  prevConfig :: "PrevConfig option"

text \<open>\<^verbatim>\<open>a ?? b\<close>\<close>

definition nullish :: "'a option \<Rightarrow> 'a \<Rightarrow> 'a" where
  "nullish a b = (case a of None \<Rightarrow> b | Some v \<Rightarrow> v)"

text \<open>The object literal of the constructor before the spread of the previous
  configuration.\<close>

definition baseConfig :: "'a Settings_scheme \<Rightarrow> TConfig" where
  "baseConfig s =
     \<lparr>pageSize = ''A4'', pageWidth = None, pageHeight = None, marginType = ''1'',
      openAfter = True, landscape = False, scale = 100,
      showTitle = nullish (setShowTitle s) True,
      displayHeader = nullish (setDisplayHeader s) True,
      displayFooter = nullish (setDisplayHeader s) True,
      marginTop = Some ''10'', marginBottom = Some ''10'',
      marginLeft = Some ''10'', marginRight = Some ''10'',
      cssSnippet = Some ''0'', cfgMultiple = None\<rparr>"

text \<open>\<^verbatim>\<open>{ ...base, ...prev }\<close>: every property \<open>prev\<close> has replaces the base's.\<close>

definition spreadPrev :: "TConfig \<Rightarrow> PrevConfig \<Rightarrow> TConfig" where
  "spreadPrev c p =
     \<lparr>pageSize = nullish (prevPageSize p) (pageSize c),
      pageWidth = (case prevPageWidth p of None \<Rightarrow> pageWidth c | Some v \<Rightarrow> Some v),
      pageHeight = (case prevPageHeight p of None \<Rightarrow> pageHeight c | Some v \<Rightarrow> Some v),
      marginType = nullish (prevMarginType p) (marginType c),
      openAfter = nullish (prevOpen p) (openAfter c),
      landscape = nullish (prevLandscape p) (landscape c),
      scale = nullish (prevScale p) (scale c),
      showTitle = nullish (prevShowTitle p) (showTitle c),
      displayHeader = nullish (prevDisplayHeader p) (displayHeader c),
      displayFooter = nullish (prevDisplayFooter p) (displayFooter c),
      marginTop = (case prevMarginTop p of None \<Rightarrow> marginTop c | Some v \<Rightarrow> Some v),
      marginBottom = (case prevMarginBottom p of None \<Rightarrow> marginBottom c | Some v \<Rightarrow> Some v),
      marginLeft = (case prevMarginLeft p of None \<Rightarrow> marginLeft c | Some v \<Rightarrow> Some v),
      marginRight = (case prevMarginRight p of None \<Rightarrow> marginRight c | Some v \<Rightarrow> Some v),
      cssSnippet = (case prevCssSnippet p of None \<Rightarrow> cssSnippet c | Some v \<Rightarrow> Some v),
      cfgMultiple = (case prevMultiple p of None \<Rightarrow> cfgMultiple c | Some v \<Rightarrow> Some v)\<rparr>"

text \<open>\<^verbatim>\<open>this.config\<close> as the constructor computes it.\<close>

definition initialConfig :: "'a Settings_scheme \<Rightarrow> TConfig" where
  "initialConfig s = spreadPrev (baseConfig s) (nullish (prevConfig s) emptyPrev)"

section \<open>Files, metadata and the host application\<close>

record TFile =
  path :: string
  basename :: string

record TFolder =
  folderPath :: string
  folderName :: string

datatype TAbstractFile = IsFile TFile | IsFolder TFolder

text \<open>A front-matter value, as far as the program looks at it.\<close>

datatype fmval = FmString string | FmArray "string list" | FmBool bool

fun fmTruthy :: "fmval \<Rightarrow> bool" where
  "fmTruthy (FmString s) = (s \<noteq> [])"
| "fmTruthy (FmArray xs) = True"
| "fmTruthy (FmBool b) = b"

type_synonym FrontMatterCache = "(string \<times> fmval) list"

text \<open>An entry of the block-anchor index: \<^verbatim>\<open>id\<close>, \<^verbatim>\<open>position.start.line\<close> and
  \<^verbatim>\<open>position.end.line\<close>.\<close>

record BlockCache =
  block_id :: string
  startLine :: nat
  endLine :: nat

text \<open>\<^verbatim>\<open>new Map(Object.entries(cache.blocks))\<close>: the entries in iteration order, each under
  its key.\<close>

type_synonym blockMap = "(string \<times> BlockCache) list"

text \<open>What the host application supplies: the metadata cache, the vault and the
  Markdown renderer. \<open>markdownRender\<close> gives the element children the renderer hands to
  the capturing fragment's \<^verbatim>\<open>appendChild\<close> (\<open>None\<close> when it hands over nothing);
  \<open>markdownPostProcess\<close> gives the view element as it is when the post-processing and
  its promises have settled, for the document id and source path of the context;
  \<open>domChangesWhileWaiting\<close> gives the view element as the host's deferred rendering
  (embedded notes, queries) has left it when \<^verbatim>\<open>fixWaitRender\<close> returns, for the length of the
  wait (\<open>True\<close> when the two seconds of sleep are added), the document id, the source path
  and the view element at the start of the wait. \<open>hostHead\<close>, \<open>hostBodyClass\<close> and
  \<open>hostBodyStyle\<close> are the content of the head and the class and the style of the body of
  the host's own document.\<close>

record App =
  viewData :: "TFile \<Rightarrow> string option"
  fileFrontMatter :: "TFile \<Rightarrow> FrontMatterCache option"
  fileBlocks :: "TFile \<Rightarrow> blockMap option"
  fileLinks :: "TFile \<Rightarrow> (string \<times> string) list option"
  getFirstLinkpathDest :: "string \<Rightarrow> string \<Rightarrow> TAbstractFile option"
  rightToLeft :: bool
  propertiesInDocument :: string
  markdownRender :: "string \<Rightarrow> string \<Rightarrow> node list option"
  markdownPostProcess :: "string \<Rightarrow> string \<Rightarrow> node \<Rightarrow> node"
  domChangesWhileWaiting :: "bool \<Rightarrow> string \<Rightarrow> string \<Rightarrow> node \<Rightarrow> node"
  canvasDataURL :: "node \<Rightarrow> string"
  hostHead :: "node list"
  hostBodyClass :: "string option"
  hostBodyStyle :: "string option"

text \<open>A JavaScript number: a finite value, an infinity or NaN (the sign of zero is not
  modelled).\<close>

datatype jsnum = Num real | PosInf | NegInf | NaN

text \<open>The errors the program can raise: \<^verbatim>\<open>TypeError\<close>, \<^verbatim>\<open>URIError\<close>, the \<^verbatim>\<open>SyntaxError\<close> of
  a script that does not parse, and the \<^verbatim>\<open>DOMException\<close> named SyntaxError of a selector
  that does not parse.\<close>

datatype error = TypeError | URIError | SyntaxError | DOMSyntaxError

text \<open>A document is its title, as \<^verbatim>\<open>doc.title\<close> returns it, and its body element.\<close>

record Document =
  docTitle :: string
  docBody :: node

text \<open>What running a script gives: it may not finish (the fuel ran out), raise, or
  return.\<close>

datatype 'a run = Unfinished | Raises error | Returns 'a

text \<open>The script \<^verbatim>\<open>makeWebviewJs\<close> builds is a fixed text with five texts pasted into
  template literals: the URI-encoded content of the document's body, the URI-encoded
  content of the head of the host's document, the class and the style of the host's
  body, and the title of the document.\<close>

record WebviewJs =
  bodyText :: string
  headText :: string
  classText :: string
  styleText :: string
  titleText :: string

text \<open>What the JavaScript platform supplies. \<open>serializeHTML\<close> is the getter of
  \<^verbatim>\<open>innerHTML\<close> and \<open>parseHTML\<close> its setter (the element whose content is read or set is
  not an argument of either); the two URI functions raise URIError
  (\<open>None\<close>); \<open>fl\<close> rounds a real number to a double (overflow is not modelled);
  \<open>randomHex\<close> is the sequence of \<^verbatim>\<open>(16 * Math.random()) | 0\<close> and \<open>randomUUID\<close> that
  of \<^verbatim>\<open>crypto.randomUUID()\<close>. \<open>querySelectorOther\<close> is \<^verbatim>\<open>querySelector\<close> for a selector
  text and \<open>executeOther\<close> is \<^verbatim>\<open>executeJavaScript\<close> for a script, where a pasted text
  does not stand for itself and the text is none of those whose reading is fixed below
  (the result is the path of the first match, if any, and the surface's document).\<close>

record Platform =
  serializeHTML :: "node list \<Rightarrow> string"
  parseHTML :: "string \<Rightarrow> node list"
  encodeURIComponent :: "string \<Rightarrow> string option"
  decodeURIComponent :: "string \<Rightarrow> string option"
  fl :: "real \<Rightarrow> real"
  randomHex :: "nat \<Rightarrow> nat"
  randomUUID :: "nat \<Rightarrow> string"
  parseFloat :: "string \<Rightarrow> jsnum"
  querySelectorOther :: "string \<Rightarrow> node \<Rightarrow> error + nat list option"
  executeOther :: "WebviewJs \<Rightarrow> Document run"

text \<open>The parts of this repository whose source files are not at hand (\<^verbatim>\<open>utils.ts\<close>,
  \<^verbatim>\<open>constant.ts\<close>, \<^verbatim>\<open>pdf.ts\<close>), as parameters. \<open>modifyDestAndFixAnchors title\<close> is
  \<^verbatim>\<open>fixAnchors(doc, modifyDest(doc), title)\<close> on the body of a document; \<open>exportToPDF\<close>
  tells whether the request for a destination succeeds.\<close>

record Utils =
  PageSize :: "string \<Rightarrow> real list option"
  mm2px :: "jsnum \<Rightarrow> jsnum"
  traverseFolder :: "TFolder \<Rightarrow> TFile list"
  modifyDestAndFixAnchors :: "string \<Rightarrow> node \<Rightarrow> node"
  copyAttributes :: "node \<Rightarrow> (string \<times> string) list \<Rightarrow> node"
  exportToPDF :: "string \<Rightarrow> bool"

section \<open>Documents and the heap\<close>

text \<open>Documents are objects: the program holds references to them and changes them in
  place, so they live in a heap.\<close>

type_synonym docref = nat

record World =
  documents :: "docref \<Rightarrow> Document"
  freshRef :: docref
  activePath :: "string option"
  randomPos :: nat
  uuidPos :: nat
  notices :: "string list"

definition allocDocument :: "Document \<Rightarrow> World \<Rightarrow> docref \<times> World" where
  "allocDocument d w =
     (freshRef w, w\<lparr>documents := (documents w)(freshRef w := d), freshRef := Suc (freshRef w)\<rparr>)"

text \<open>\<^verbatim>\<open>doc.querySelector\<close> and \<^verbatim>\<open>doc.querySelectorAll\<close>: the search starts at the body
  element.\<close>

definition docQueryAll :: "selector \<Rightarrow> Document \<Rightarrow> nat list list" where
  "docQueryAll sel d = pathsN sel (docBody d)"

definition docQuery :: "selector \<Rightarrow> Document \<Rightarrow> nat list option" where
  "docQuery sel d = (case docQueryAll sel d of [] \<Rightarrow> None | p # ps \<Rightarrow> Some p)"

text \<open>\<^verbatim>\<open>DocType\<close>; its field \<^verbatim>\<open>file\<close> is \<open>tfile\<close> here.\<close>

record DocType =
  doc :: docref
  frontMatter :: FrontMatterCache
  tfile :: TFile

section \<open>The document transformer: block anchors (render.ts, lines 193 to 211)\<close>

definition newline :: char where
  "newline = CHR 0x0A"

text \<open>\<^verbatim>\<open>line.includes(blockid) && i >= start.line && i <= end.line\<close>\<close>

definition blockMatches :: "string \<Rightarrow> nat \<Rightarrow> BlockCache \<Rightarrow> bool" where
  "blockMatches line i b =
     (str_includes line (CHR ''^'' # block_id b) \<and> startLine b \<le> i \<and> i \<le> endLine b)"

text \<open>\<^verbatim>\<open>blocks.delete(id)\<close>\<close>

definition mapDelete :: "string \<Rightarrow> blockMap \<Rightarrow> blockMap" where
  "mapDelete k bs = filter (\<lambda>kb. fst kb \<noteq> k) bs"

definition blockSpan :: "string \<Rightarrow> string" where
  \<open>blockSpan blockid = ''<span id="'' @ blockid @ ''" class="blockid"></span>''\<close>

text \<open>\<^verbatim>\<open>line.replace(blockid, `<span id="${blockid}" class="blockid"></span> ${blockid}`)\<close>\<close>

definition wrapLine :: "string \<Rightarrow> BlockCache \<Rightarrow> string" where
  "wrapLine line b =
     replaceFirst line (CHR ''^'' # block_id b)
       (blockSpan (CHR ''^'' # block_id b) @ '' '' @ CHR ''^'' # block_id b)"

text \<open>The callback of \<^verbatim>\<open>map\<close> for line \<open>i\<close>: the first anchor of the working set, in
  its order, whose marker text the line includes and whose range holds \<open>i\<close>, is deleted
  from the set and wrapped into the line.\<close>

definition anchorLine :: "blockMap \<Rightarrow> nat \<Rightarrow> string \<Rightarrow> string \<times> blockMap" where
  "anchorLine bs i line =
     (case find (blockMatches line i) (map snd bs) of
        None \<Rightarrow> (line, bs)
      | Some b \<Rightarrow> (wrapLine line b, mapDelete (block_id b) bs))"

fun anchorLines :: "blockMap \<Rightarrow> nat \<Rightarrow> string list \<Rightarrow> string list \<times> blockMap" where
  "anchorLines bs i [] = ([], bs)"
| "anchorLines bs i (l # ls) =
     (case anchorLine bs i l of
        (l', bs') \<Rightarrow> (case anchorLines bs' (Suc i) ls of (ls', bs'') \<Rightarrow> (l' # ls', bs'')))"

text \<open>An array of lines may get holes: \<^verbatim>\<open>lines[idx] = v\<close> beyond the end extends the
  array, and a hole or a missing element reads as \<^verbatim>\<open>undefined\<close>.\<close>

definition jsLineAt :: "string option list \<Rightarrow> nat \<Rightarrow> string" where
  "jsLineAt ls i =
     (if i < length ls then (case ls ! i of None \<Rightarrow> ''undefined'' | Some s \<Rightarrow> s)
      else ''undefined'')"

definition jsAssign :: "string option list \<Rightarrow> nat \<Rightarrow> string \<Rightarrow> string option list" where
  "jsAssign ls i v =
     (if i < length ls then ls[i := Some v]
      else ls @ replicate (i - length ls) None @ [Some v])"

definition syntheticSpan :: "BlockCache \<Rightarrow> string" where
  "syntheticSpan b = blockSpan (CHR ''^'' # block_id b) @ [newline, newline]"

text \<open>\<^verbatim>\<open>lines[idx] = `<span id="^${id}" class="blockid"></span>\n\n` + lines[idx]\<close>\<close>

definition syntheticLine :: "string option list \<Rightarrow> BlockCache \<Rightarrow> string option list" where
  "syntheticLine ls b =
     jsAssign ls (startLine b) (syntheticSpan b @ jsLineAt ls (startLine b))"

text \<open>The lines after both passes, and the text handed to the Markdown renderer.\<close>

definition sourceLines :: "string option \<Rightarrow> string list" where
  "sourceLines sdata = (case sdata of None \<Rightarrow> [] | Some d \<Rightarrow> splitOn newline d)"

definition anchoredLines :: "string list \<Rightarrow> blockMap \<Rightarrow> string option list" where
  "anchoredLines ls blocks =
     (case anchorLines blocks 0 ls of
        (out, remaining) \<Rightarrow> foldl syntheticLine (map Some out) (map snd remaining))"

definition anchoredMarkdown :: "string option \<Rightarrow> blockMap option \<Rightarrow> string" where
  "anchoredMarkdown sdata blocks =
     joinWith [newline] (anchoredLines (sourceLines sdata) (nullish blocks []))"

text \<open>The working set of anchors when line \<open>i\<close> is reached, and the anchor wrapped into
  line \<open>i\<close> (if any).\<close>

definition remainingAt :: "blockMap \<Rightarrow> string list \<Rightarrow> nat \<Rightarrow> blockMap" where
  "remainingAt bs ls i = snd (anchorLines bs 0 (take i ls))"

definition inlineAt :: "blockMap \<Rightarrow> string list \<Rightarrow> nat \<Rightarrow> BlockCache option" where
  "inlineAt bs ls i = find (blockMatches (ls ! i) i) (map snd (remainingAt bs ls i))"

text \<open>An index whose keys are distinct (they are the properties of an object) and are
  the ids of their entries.\<close>

definition indexById :: "blockMap \<Rightarrow> bool" where
  "indexById bs = (distinct (map fst bs) \<and> (\<forall>kb \<in> set bs. fst kb = block_id (snd kb)))"

section \<open>The document transformer: internal links (render.ts, lines 260 to 268)\<close>

definition nth_opt :: "'a list \<Rightarrow> nat \<Rightarrow> 'a option" where
  "nth_opt xs i = (if i < length xs then Some (xs ! i) else None)"

text \<open>\<^verbatim>\<open>const [title, anchor] = el.dataset.href?.split("#") ?? []\<close>\<close>

definition hrefParts :: "node \<Rightarrow> string list" where
  "hrefParts el =
     (case getAttribute ''data-href'' el of None \<Rightarrow> [] | Some h \<Rightarrow> splitOn (CHR ''#'') h)"

definition linkTitle :: "node \<Rightarrow> string option" where
  "linkTitle el = nth_opt (hrefParts el) 0"

definition linkAnchor :: "node \<Rightarrow> string option" where
  "linkAnchor el = nth_opt (hrefParts el) 1"

text \<open>\<^verbatim>\<open>(!title || title?.length == 0 || title == file.basename) && anchor?.startsWith("^")\<close>\<close>

definition keepsHref :: "string \<Rightarrow> node \<Rightarrow> bool" where
  "keepsHref base el =
     ((linkTitle el = None \<or> linkTitle el = Some [] \<or> linkTitle el = Some base)
      \<and> (case linkAnchor el of None \<Rightarrow> False | Some a \<Rightarrow> startsWith a ''^''))"

text \<open>The same decision as a function of the \<^verbatim>\<open>data-href\<close> attribute alone.\<close>

definition hrefDecision :: "string \<Rightarrow> string option \<Rightarrow> bool" where
  "hrefDecision base dh =
     (let parts = (case dh of None \<Rightarrow> [] | Some h \<Rightarrow> splitOn (CHR ''#'') h)
      in (nth_opt parts 0 = None \<or> nth_opt parts 0 = Some [] \<or> nth_opt parts 0 = Some base)
         \<and> (case nth_opt parts 1 of None \<Rightarrow> False | Some a \<Rightarrow> startsWith a ''^''))"

definition internalLinkSel :: selector where
  "internalLinkSel = TagClassSel ''a'' ''internal-link''"

definition repairLink :: "string \<Rightarrow> node \<Rightarrow> node" where
  "repairLink base el =
     (if matches internalLinkSel el \<and> \<not> keepsHref base el then removeAttribute ''href'' el
      else el)"

text \<open>\<^verbatim>\<open>printEl.findAll("a.internal-link").forEach(...)\<close>: every matching element below
  \<open>printEl\<close> is visited once, and a visit changes only the attributes of the visited
  element.\<close>

fun repairBelow :: "string \<Rightarrow> node \<Rightarrow> node" where
  "repairBelow base (Text s) = Text s"
| "repairBelow base (Element t as cs) =
     repairLink base (Element t as (map (repairBelow base) cs))"

definition repairLinks :: "string \<Rightarrow> node \<Rightarrow> node" where
  "repairLinks base printEl = setChildNodes (map (repairBelow base) (children_of printEl)) printEl"

text \<open>The link metadata of a print element: the \<^verbatim>\<open>data-href\<close> and the \<^verbatim>\<open>href\<close> of every
  internal link below it, in document order.\<close>

definition linkState :: "node \<Rightarrow> string option \<times> string option" where
  "linkState el = (getAttribute ''data-href'' el, getAttribute ''href'' el)"

definition linkStates :: "node \<Rightarrow> (string option \<times> string option) list" where
  "linkStates printEl =
     map (\<lambda>p. case nodeAt printEl p of None \<Rightarrow> (None, None) | Some el \<Rightarrow> linkState el)
       (querySelectorAll internalLinkSel printEl)"

section \<open>The document transformer: \<^verbatim>\<open>renderMarkdown\<close>\<close>

definition toLowerChar :: "char \<Rightarrow> char" where
  "toLowerChar c =
     (let k = (of_char c :: nat) in if 65 \<le> k \<and> k \<le> 90 then char_of (k + 32) else c)"

definition toLowerCase :: "string \<Rightarrow> string" where
  "toLowerCase s = map toLowerChar s"

definition joinStrings :: "string \<Rightarrow> string list \<Rightarrow> string" where
  "joinStrings sep xs = joinWith sep (map Some xs)"

text \<open>What \<^verbatim>\<open>cssclasses.push(...)\<close> adds for one front-matter value, as \<^verbatim>\<open>join\<close> prints
  it.\<close>

fun fmStrings :: "fmval \<Rightarrow> string list" where
  "fmStrings (FmArray xs) = xs"
| "fmStrings (FmString s) = [s]"
| "fmStrings (FmBool b) = [if b then ''true'' else ''false'']"

definition cssclassesOf :: "FrontMatterCache \<Rightarrow> string list" where
  "cssclassesOf fm =
     concat (map (\<lambda>kv. if toLowerCase (fst kv) = ''cssclass'' \<or> toLowerCase (fst kv) = ''cssclasses''
                        then fmStrings (snd kv) else []) fm)"

text \<open>\<^verbatim>\<open>classList.add\<close> and \<^verbatim>\<open>classList.remove\<close>: the class attribute becomes the
  token set, its tokens separated by one space.\<close>

definition orderedSet :: "string list \<Rightarrow> string list" where
  "orderedSet xs = rev (remdups (rev xs))"

definition classListAdd :: "string \<Rightarrow> node \<Rightarrow> node" where
  "classListAdd tok n =
     (let ts = orderedSet (classList n)
      in setAttribute ''class'' (joinStrings '' '' (if tok \<in> set ts then ts else ts @ [tok])) n)"

definition classListRemove :: "string \<Rightarrow> node \<Rightarrow> node" where
  "classListRemove tok n =
     (if getAttribute ''class'' n = None then n
      else setAttribute ''class'' (joinStrings '' '' (filter (\<lambda>t. t \<noteq> tok) (orderedSet (classList n)))) n)"

definition toggleClass :: "string \<Rightarrow> bool \<Rightarrow> node \<Rightarrow> node" where
  "toggleClass tok b n = (if b then classListAdd tok n else classListRemove tok n)"

text \<open>The \<^verbatim>\<open>extra\<close> argument of \<^verbatim>\<open>renderMarkdown\<close>.\<close>

record Extra =
  extraTitle :: "string option"
  extraFile :: TFile
  extraId :: "string option"

definition hexDigit :: "nat \<Rightarrow> char" where
  "hexDigit k = ''0123456789abcdef'' ! (k mod 16)"

text \<open>\<^verbatim>\<open>generateDocId(n)\<close>, from position \<open>pos\<close> of the random sequence.\<close>

definition generateDocId :: "Platform \<Rightarrow> nat \<Rightarrow> nat \<Rightarrow> string" where
  "generateDocId pf pos n = map (\<lambda>k. hexDigit (randomHex pf k)) [pos ..< pos + n]"

text \<open>The title heading.\<close>

definition titleEl :: "string \<Rightarrow> bool \<Rightarrow> string \<Rightarrow> node" where
  "titleEl title shown ident =
     Element ''h1''
       [(''class'', ''__title__''),
        (''style'', if shown then ''display: block;'' else ''display: none;''),
        (''id'', ident)]
       (if title = [] then [] else [Text title])"

text \<open>The view element before anything is rendered into it.\<close>

definition newViewEl :: "App \<Rightarrow> string list \<Rightarrow> node" where
  "newViewEl app cssclasses =
     toggleClass ''show-properties'' (propertiesInDocument app \<noteq> ''hidden'')
       (toggleClass ''rtl'' (rightToLeft app)
          (classListAdd ''pagedjs_enabled''
             (Element ''div''
                [(''class'', ''markdown-preview-view markdown-rendered '' @ joinStrings '' '' cssclasses)]
                [])))"

text \<open>\<^verbatim>\<open>fixCanvasToImage\<close>: every canvas below the view element becomes an image.\<close>

definition canvasImage :: "App \<Rightarrow> Utils \<Rightarrow> node \<Rightarrow> node" where
  "canvasImage app ut canvas =
     setAttribute ''class'' ''__canvas__''
       (copyAttributes ut (Element ''img'' [(''src'', canvasDataURL app canvas)] []) (attributes canvas))"

fun canvasBelow :: "App \<Rightarrow> Utils \<Rightarrow> node \<Rightarrow> node" where
  "canvasBelow app ut (Text s) = Text s"
| "canvasBelow app ut (Element t as cs) =
     (if t = ''canvas'' then canvasImage app ut (Element t as cs)
      else Element t as (map (canvasBelow app ut) cs))"

definition fixCanvasToImage :: "App \<Rightarrow> Utils \<Rightarrow> node \<Rightarrow> node" where
  "fixCanvasToImage app ut viewEl =
     setChildNodes (map (canvasBelow app ut) (children_of viewEl)) viewEl"

text \<open>The view element with the title heading and the rendered items, each item in a
  \<^verbatim>\<open>div\<close> of its own, before post-processing (lines 164 to 238).\<close>

definition renderedViewEl ::
    "App \<Rightarrow> TFile \<Rightarrow> TConfig \<Rightarrow> Extra option \<Rightarrow> FrontMatterCache \<Rightarrow> node list \<Rightarrow> node" where
  "renderedViewEl app f conf extra fm items =
     (let title = nullish (case extra of None \<Rightarrow> None | Some x \<Rightarrow> extraTitle x) (basename f);
          ident = nullish (case extra of None \<Rightarrow> None | Some x \<Rightarrow> extraId x) []
      in setChildNodes
           (titleEl title (showTitle conf) ident # map (\<lambda>item. Element ''div'' [] [item]) items)
           (newViewEl app (cssclassesOf fm)))"

text \<open>\<^verbatim>\<open>data.includes("```dataview") || data.includes("```gEvent") || data.includes("![[")\<close>\<close>

definition longWait :: "string \<Rightarrow> bool" where
  "longWait sdata =
     (str_includes sdata ''```dataview'' \<or> str_includes sdata ''```gEvent'' \<or> str_includes sdata ''![['')"

text \<open>\<^verbatim>\<open>try { await fixWaitRender(data, viewEl) } catch (error) { ... }\<close>: while the program
  waits, the host changes the view element. With no text, \<^verbatim>\<open>data.includes\<close> raises
  at once; the error is caught and there is no wait.\<close>

definition fixWaitRender :: "App \<Rightarrow> string option \<Rightarrow> string \<Rightarrow> string \<Rightarrow> node \<Rightarrow> node" where
  "fixWaitRender app sdata docId src viewEl =
     (case sdata of
        None \<Rightarrow> viewEl
      | Some s \<Rightarrow> domChangesWhileWaiting app (longWait s) docId src viewEl)"

text \<open>What follows the loop over the internal links (lines 269 to 275): the wait and the
  canvas conversion, both on the view element, the child of the print element.\<close>

definition afterRepair :: "App \<Rightarrow> Utils \<Rightarrow> string option \<Rightarrow> string \<Rightarrow> string \<Rightarrow> node \<Rightarrow> node" where
  "afterRepair app ut sdata docId src printEl =
     setChildNodes
       (map (\<lambda>viewEl. fixCanvasToImage app ut (fixWaitRender app sdata docId src viewEl))
          (children_of printEl))
       printEl"

text \<open>Four points of a run of \<^verbatim>\<open>renderMarkdown\<close>: the text handed to the Markdown renderer
  (line 226), the print element when the loop over the internal links starts (line 260)
  and when it ends (line 268), and the print element that is cloned into the new document
  (line 278).\<close>

record Stages =
  handed :: string
  atLoop :: node
  repaired :: node
  cloned :: node

text \<open>The stages of a run from the state \<open>w\<close> of the world; none when the renderer hands
  nothing to the capturing fragment. The items are the element children the fragment
  captured.\<close>

definition renderStages ::
    "App \<Rightarrow> Platform \<Rightarrow> Utils \<Rightarrow> TFile \<Rightarrow> TConfig \<Rightarrow> Extra option \<Rightarrow> World \<Rightarrow> Stages option" where
  "renderStages app pf ut f conf extra w =
     (let sdata = viewData app f;
          fm = nullish (fileFrontMatter app f) [];
          md = anchoredMarkdown sdata (fileBlocks app f)
      in case markdownRender app md (path f) of
           None \<Rightarrow> None
         | Some items \<Rightarrow>
             (let viewEl = renderedViewEl app f conf extra fm (filter isElement items);
                  docId = generateDocId pf (randomPos w) 16;
                  printEl = Element ''div'' [(''class'', ''print'')] [markdownPostProcess app docId (path f) viewEl];
                  printEl' = repairLinks (basename f) printEl
              in Some \<lparr>handed = md, atLoop = printEl, repaired = printEl',
                        cloned = afterRepair app ut sdata docId (path f) printEl'\<rparr>))"

text \<open>\<^verbatim>\<open>renderMarkdown\<close>. It makes the file the active one, reads the text and the
  metadata, places the anchors, renders, repairs the links, waits, and returns a new
  document. It raises TypeError when the renderer handed nothing to the capturing fragment
  (\<^verbatim>\<open>Array.from(fragment.children)\<close> of \<^verbatim>\<open>undefined\<close>).\<close>

definition renderMarkdown ::
    "App \<Rightarrow> Platform \<Rightarrow> Utils \<Rightarrow> TFile \<Rightarrow> TConfig \<Rightarrow> Extra option \<Rightarrow> World \<Rightarrow> error + (DocType \<times> World)" where
  "renderMarkdown app pf ut f conf extra w =
     (let w1 = w\<lparr>activePath := Some (path f)\<rparr>;
          sdata = viewData app f;
          w2 = (if sdata = None \<or> sdata = Some [] then w1\<lparr>notices := notices w1 @ [''data is empty!'']\<rparr> else w1);
          fm = nullish (fileFrontMatter app f) []
      in case renderStages app pf ut f conf extra w2 of
           None \<Rightarrow> Inl TypeError
         | Some st \<Rightarrow>
             (let w3 = w2\<lparr>randomPos := randomPos w2 + 16\<rparr>;
                  title = nullish (case extra of None \<Rightarrow> None | Some x \<Rightarrow> extraTitle x) (basename f);
                  d = \<lparr>docTitle = stripAndCollapse title, docBody = Element ''body'' [] [cloned st]\<rparr>
              in case allocDocument d w3 of
                   (r, w4) \<Rightarrow> Inr (\<lparr>doc = r, frontMatter = fm, tfile = f\<rparr>, w4)))"

section \<open>The export dialog (modal.ts)\<close>

text \<open>A preview surface: the three style properties the program sets, and the document
  it shows once it is ready.\<close>

record Webview =
  wvTransform :: "jsnum \<times> jsnum"
  wvWidth :: jsnum
  wvHeight :: jsnum
  wvDoc :: docref

text \<open>The children of the preview container.\<close>

datatype previewItem = FilenameDiv string | SurfaceDiv nat

text \<open>The fields of \<^verbatim>\<open>ExportConfigModal\<close>. \<open>preview\<close> is the position of \<^verbatim>\<open>this.preview\<close>
  in \<^verbatim>\<open>this.webviews\<close>, \<open>settings\<close> is \<^verbatim>\<open>this.plugin.settings\<close>, \<open>modalFile\<close> is
  \<^verbatim>\<open>this.file\<close>, \<open>previewItems\<close> are the children of the preview container and \<open>isOpen\<close>
  tells whether the dialog is open.\<close>

record Modal =
  canceled :: bool
  completed :: bool
  multiple :: "bool option"
  config :: TConfig
  settings :: Settings
  modalFile :: TAbstractFile
  docs :: "DocType list"
  webviews :: "Webview list"
  preview :: "nat option"
  previewItems :: "previewItem list"
  isOpen :: bool

definition constructor :: "Settings \<Rightarrow> TAbstractFile \<Rightarrow> bool option \<Rightarrow> Modal" where
  "constructor s f m =
     \<lparr>canceled = True, completed = False, multiple = m, config = initialConfig s,
      settings = s, modalFile = f, docs = [], webviews = [], preview = None,
      previewItems = [], isOpen = False\<rparr>"

subsection \<open>\<^verbatim>\<open>mergeDoc\<close>\<close>

definition containerSel :: selector where
  "containerSel = ClassSel ''markdown-preview-view''"

text \<open>\<^verbatim>\<open>doc.querySelector(".markdown-preview-view")\<close>: the primary content container of
  a document.\<close>

definition containerOf :: "Document \<Rightarrow> node option" where
  "containerOf d =
     (case docQuery containerSel d of None \<Rightarrow> None | Some p \<Rightarrow> nodeAt (docBody d) p)"

text \<open>The section made from a container: \<^verbatim>\<open>doc0.importNode(child, true)\<close> of every
  element child (\<^verbatim>\<open>element.children\<close>), appended to a new \<^verbatim>\<open>section\<close>. Nodes are
  values here, so the deep copy of a node is the node.\<close>

definition sectionFrom :: "node \<Rightarrow> node" where
  "sectionFrom el = Element ''section'' [] (filter isElement (children_of el))"

text \<open>The section made for one document; none when the document has no container.\<close>

definition sectionOf :: "Document \<Rightarrow> node option" where
  "sectionOf d = map_option sectionFrom (containerOf d)"

text \<open>\<^verbatim>\<open>mergeDoc(docs)\<close>: TypeError on an empty array (the destructuring of
  \<^verbatim>\<open>docs[0]\<close>).\<close>

definition mergeDoc :: "Modal \<Rightarrow> World \<Rightarrow> DocType list \<Rightarrow> error + (Modal \<times> World)" where
  "mergeDoc m w ds =
     (case ds of
        [] \<Rightarrow> Inl TypeError
      | d0 # rest \<Rightarrow>
          (let sections = List.map_filter (\<lambda>d. sectionOf (documents w (doc d))) ds;
               doc0 = documents w (doc d0);
               doc0' = (case docQuery containerSel doc0 of
                          None \<Rightarrow> doc0
                        | Some p \<Rightarrow> doc0\<lparr>docBody := updateAt (setChildNodes sections) p (docBody doc0)\<rparr>)
           in Inr (m\<lparr>docs := [\<lparr>doc = doc d0, frontMatter = frontMatter d0, tfile = tfile d0\<rparr>]\<rparr>,
                   w\<lparr>documents := (documents w)(doc d0 := doc0')\<rparr>)))"

subsection \<open>\<^verbatim>\<open>encodeEmbeds\<close> and \<^verbatim>\<open>fixDoc\<close> (render.ts, lines 288 to 298)\<close>

definition embedSel :: selector where
  "embedSel = TagClassSel ''span'' ''markdown-embed''"

text \<open>\<^verbatim>\<open>span.innerHTML = encodeURIComponent(span.innerHTML)\<close>\<close>

definition encodeSpan :: "Platform \<Rightarrow> node \<Rightarrow> error + node" where
  "encodeSpan pf el =
     (case encodeURIComponent pf (serializeHTML pf (children_of el)) of
        None \<Rightarrow> Inl URIError
      | Some e \<Rightarrow> Inr (setChildNodes (parseHTML pf e) el))"

text \<open>\<^verbatim>\<open>spans.forEach(...)\<close> over the spans named by their paths.\<close>

fun encodeAt :: "Platform \<Rightarrow> nat list list \<Rightarrow> node \<Rightarrow> error + node" where
  "encodeAt pf [] n = Inr n"
| "encodeAt pf (p # ps) n =
     (case nodeAt n p of
        None \<Rightarrow> encodeAt pf ps n
      | Some el \<Rightarrow>
          (case encodeSpan pf el of
             Inl e \<Rightarrow> Inl e
           | Inr el' \<Rightarrow> encodeAt pf ps (updateAt (\<lambda>x. el') p n)))"

text \<open>\<^verbatim>\<open>encodeEmbeds\<close>: the spans in reverse document order.\<close>

definition encodeEmbeds :: "Platform \<Rightarrow> Document \<Rightarrow> error + Document" where
  "encodeEmbeds pf d =
     (case encodeAt pf (rev (docQueryAll embedSel d)) (docBody d) of
        Inl e \<Rightarrow> Inl e
      | Inr b \<Rightarrow> Inr (d\<lparr>docBody := b\<rparr>))"

text \<open>What \<^verbatim>\<open>encodeEmbeds\<close> gives, told bottom up: the content of a node is encoded first
  (later children first), then the node itself if it is an embed span.\<close>

fun encodedNode :: "Platform \<Rightarrow> node \<Rightarrow> error + node"
  and encodedForest :: "Platform \<Rightarrow> node list \<Rightarrow> error + node list" where
  "encodedNode pf (Text s) = Inr (Text s)"
| "encodedNode pf (Element t as cs) =
     (case encodedForest pf cs of
        Inl e \<Rightarrow> Inl e
      | Inr cs' \<Rightarrow>
          (if matches embedSel (Element t as cs) then encodeSpan pf (Element t as cs')
           else Inr (Element t as cs')))"
| "encodedForest pf [] = Inr []"
| "encodedForest pf (c # cs) =
     (case encodedForest pf cs of
        Inl e \<Rightarrow> Inl e
      | Inr cs' \<Rightarrow> (case encodedNode pf c of Inl e \<Rightarrow> Inl e | Inr c' \<Rightarrow> Inr (c' # cs')))"

text \<open>Markup the platform carries unchanged: it can be URI-encoded, and parsing its
  serialization gives it back.\<close>

definition roundTrips :: "Platform \<Rightarrow> node list \<Rightarrow> bool" where
  "roundTrips pf cs =
     (encodeURIComponent pf (serializeHTML pf cs) \<noteq> None \<and> parseHTML pf (serializeHTML pf cs) = cs)"

text \<open>Well-formed embed markup: the content of every embed span, at any depth, is carried
  unchanged once the spans within it are encoded; and so is the content of the body of a
  document.\<close>

fun wellFormedEmbeds :: "Platform \<Rightarrow> node \<Rightarrow> bool" where
  "wellFormedEmbeds pf (Text s) = True"
| "wellFormedEmbeds pf (Element t as cs) =
     ((\<forall>c \<in> set cs. wellFormedEmbeds pf c)
      \<and> (matches embedSel (Element t as cs) \<longrightarrow>
           (case encodedForest pf cs of Inl e \<Rightarrow> False | Inr cs' \<Rightarrow> roundTrips pf cs')))"

definition wellFormedDocument :: "Platform \<Rightarrow> Document \<Rightarrow> bool" where
  "wellFormedDocument pf d =
     (tagName (docBody d) = ''body'' \<and> isElement (docBody d)
      \<and> (\<forall>c \<in> set (children_of (docBody d)). wellFormedEmbeds pf c)
      \<and> (case encodedForest pf (children_of (docBody d)) of
            Inl e \<Rightarrow> False
          | Inr cs' \<Rightarrow> roundTrips pf cs'))"

text \<open>What the round trip asks of the platform's URI functions: decoding gives back what
  was encoded, an encoded string stands for itself in a template literal, and it is plain
  text to the HTML parser (it parses to text only, which serializes to the string
  itself).\<close>

definition uriContract :: "Platform \<Rightarrow> bool" where
  "uriContract pf =
     (\<forall>s e. encodeURIComponent pf s = Some e \<longrightarrow>
        decodeURIComponent pf e = Some s
        \<and> templateSafe e
        \<and> (\<forall>n \<in> set (parseHTML pf e). \<not> isElement n)
        \<and> serializeHTML pf (parseHTML pf e) = e)"

text \<open>How deep embed spans are nested within one another.\<close>

fun embedDepth :: "node \<Rightarrow> nat" where
  "embedDepth (Text s) = 0"
| "embedDepth (Element t as cs) =
     (if matches embedSel (Element t as cs) then 1 else 0) + foldr max (map embedDepth cs) 0"

definition fixDoc :: "Platform \<Rightarrow> Utils \<Rightarrow> Document \<Rightarrow> string \<Rightarrow> error + Document" where
  "fixDoc pf ut d title = encodeEmbeds pf (d\<lparr>docBody := modifyDestAndFixAnchors ut title (docBody d)\<rparr>)"

subsection \<open>\<^verbatim>\<open>renderFiles\<close>\<close>

text \<open>The files of a render pass, one after the other.\<close>

fun renderEach ::
    "App \<Rightarrow> Platform \<Rightarrow> Utils \<Rightarrow> TConfig \<Rightarrow> (TFile \<times> Extra option) list \<Rightarrow> World \<Rightarrow> error + (DocType list \<times> World)" where
  "renderEach app pf ut conf [] w = Inr ([], w)"
| "renderEach app pf ut conf (fx # fs) w =
     (case renderMarkdown app pf ut (fst fx) conf (snd fx) w of
        Inl e \<Rightarrow> Inl e
      | Inr (d, w') \<Rightarrow>
          (case renderEach app pf ut conf fs w' of
             Inl e \<Rightarrow> Inl e
           | Inr (ds, w'') \<Rightarrow> Inr (d # ds, w'')))"

text \<open>\<^verbatim>\<open>doc.querySelector(`a[data-href="${link}"]`)\<close>: the link is pasted into the selector
  text as it is. When it stands for itself, the selector asks for the first \<^verbatim>\<open>a\<close> element
  whose \<^verbatim>\<open>data-href\<close> is the link. When it is made of letters, digits, spaces and an odd
  number of double quotes, the value of the attribute selector is followed by a further
  string inside the brackets, the selector does not parse and \<^verbatim>\<open>querySelector\<close> raises.
  Every other selector text is left to the platform.\<close>

definition queryDataHref :: "Platform \<Rightarrow> string \<Rightarrow> node \<Rightarrow> error + nat list option" where
  "queryDataHref pf link body =
     (if selectorSafe link then
        Inr (case pathsN (TagAttrSel ''a'' ''data-href'' link) body of [] \<Rightarrow> None | p # ps \<Rightarrow> Some p)
      else if unterminated (CHR 0x22) link then Inl DOMSyntaxError
      else querySelectorOther pf (''a[data-href='' @ [CHR 0x22] @ link @ [CHR 0x22] @ '']'') body)"

text \<open>The callback over \<^verbatim>\<open>cache.links\<close> of a document with a table of contents: every
  link gets a new id, the first anchor element with that \<^verbatim>\<open>data-href\<close> is pointed at
  it, and the link's destination is looked up. A selector that does not parse ends the
  pass.\<close>

fun tocItems ::
    "App \<Rightarrow> Platform \<Rightarrow> string \<Rightarrow> (string \<times> string) list \<Rightarrow> node \<Rightarrow> nat
       \<Rightarrow> error + ((TAbstractFile option \<times> string \<times> string) list \<times> node \<times> nat)" where
  "tocItems app pf src [] body u = Inr ([], body, u)"
| "tocItems app pf src (ld # ls) body u =
     (let ident = randomUUID pf u
      in case queryDataHref pf (fst ld) body of
           Inl e \<Rightarrow> Inl e
         | Inr found \<Rightarrow>
             (let body' = (case found of
                             None \<Rightarrow> body
                           | Some p \<Rightarrow> updateAt (setAttribute ''href'' (CHR ''#'' # ident)) p body)
              in case tocItems app pf src ls body' (Suc u) of
                   Inl e \<Rightarrow> Inl e
                 | Inr (items, body'', u') \<Rightarrow>
                     Inr ((getFirstLinkpathDest app (fst ld) src, snd ld, ident) # items, body'', u')))"

text \<open>\<^verbatim>\<open>.filter((item) => item.file instanceof TFile)\<close>, each remaining item with the
  \<^verbatim>\<open>extra\<close> argument it is rendered with.\<close>

fun tocFiles :: "(TAbstractFile option \<times> string \<times> string) list \<Rightarrow> (TFile \<times> Extra option) list" where
  "tocFiles [] = []"
| "tocFiles ((Some (IsFile f), title, ident) # r) =
     (f, Some \<lparr>extraTitle = Some title, extraFile = f, extraId = Some ident\<rparr>) # tocFiles r"
| "tocFiles (other # r) = tocFiles r"

text \<open>The documents of a render pass, before merging.\<close>

definition renderSources ::
    "App \<Rightarrow> Platform \<Rightarrow> Utils \<Rightarrow> Modal \<Rightarrow> World \<Rightarrow> error + (DocType list \<times> World)" where
  "renderSources app pf ut m w =
     (case modalFile m of
        IsFolder fo \<Rightarrow> renderEach app pf ut (config m) (map (\<lambda>f. (f, None)) (traverseFolder ut fo)) w
      | IsFile f \<Rightarrow>
          (case renderMarkdown app pf ut f (config m) None w of
             Inl e \<Rightarrow> Inl e
           | Inr (d, w1) \<Rightarrow>
               (if (case map_of (frontMatter d) ''toc'' of None \<Rightarrow> False | Some v \<Rightarrow> fmTruthy v) then
                  (let d0 = documents w1 (doc d) in
                   case tocItems app pf (path f) (nullish (fileLinks app f) []) (docBody d0) (uuidPos w1) of
                     Inl e \<Rightarrow> Inl e
                   | Inr (items, body', u') \<Rightarrow>
                       (let w2 = w1\<lparr>documents := (documents w1)(doc d := d0\<lparr>docBody := body'\<rparr>),
                                    uuidPos := u'\<rparr>
                        in case renderEach app pf ut (config m) (tocFiles items) w2 of
                             Inl e \<Rightarrow> Inl e
                           | Inr (ds, w3) \<Rightarrow> Inr (d # ds, w3\<lparr>activePath := Some (path f)\<rparr>)))
                else Inr ([d], w1))))"

text \<open>\<^verbatim>\<open>docs.map(({ doc, ...rest }) => ({ ...rest, doc: fixDoc(doc, doc.title) }))\<close>: every
  document is fixed in place, and the array keeps its entries.\<close>

fun fixDocs :: "Platform \<Rightarrow> Utils \<Rightarrow> DocType list \<Rightarrow> World \<Rightarrow> error + World" where
  "fixDocs pf ut [] w = Inr w"
| "fixDocs pf ut (d # ds) w =
     (case fixDoc pf ut (documents w (doc d)) (docTitle (documents w (doc d))) of
        Inl e \<Rightarrow> Inl e
      | Inr d' \<Rightarrow> fixDocs pf ut ds (w\<lparr>documents := (documents w)(doc d := d')\<rparr>))"

text \<open>\<^verbatim>\<open>renderFiles\<close>: when \<^verbatim>\<open>this.multiple\<close> is not set the documents are merged; then
  \<^verbatim>\<open>this.docs\<close> is assigned the mapped local array.\<close>

definition renderFiles ::
    "App \<Rightarrow> Platform \<Rightarrow> Utils \<Rightarrow> Modal \<Rightarrow> World \<Rightarrow> error + (Modal \<times> World)" where
  "renderFiles app pf ut m w =
     (case renderSources app pf ut m w of
        Inl e \<Rightarrow> Inl e
      | Inr (ds, w1) \<Rightarrow>
          (case (if multiple m = Some True then Inr (m, w1) else mergeDoc m w1 ds) of
             Inl e \<Rightarrow> Inl e
           | Inr (m1, w2) \<Rightarrow>
               (case fixDocs pf ut ds w2 of
                  Inl e \<Rightarrow> Inl e
                | Inr w3 \<Rightarrow> Inr (m1\<lparr>docs := ds\<rparr>, w3))))"

subsection \<open>Preview surfaces\<close>

text \<open>\<^verbatim>\<open>1 / x\<close>\<close>

fun js_inv :: "Platform \<Rightarrow> jsnum \<Rightarrow> jsnum" where
  "js_inv pf (Num v) = (if v = 0 then PosInf else Num (fl pf (1 / v)))"
| "js_inv pf PosInf = Num 0"
| "js_inv pf NegInf = Num 0"
| "js_inv pf NaN = NaN"

text \<open>\<^verbatim>\<open>createWebview(scale)\<close>, for the document the surface is to show.\<close>

definition createWebview :: "Platform \<Rightarrow> jsnum \<Rightarrow> docref \<Rightarrow> Webview" where
  "createWebview pf sc d =
     \<lparr>wvTransform = (js_inv pf sc, js_inv pf sc), wvWidth = sc, wvHeight = sc, wvDoc = d\<rparr>"

text \<open>A natural number in decimal digits.\<close>

fun decimal :: "nat \<Rightarrow> string" where
  "decimal n = (if n < 10 then [hexDigit n] else decimal (n div 10) @ [hexDigit (n mod 10)])"

declare decimal.simps [simp del]

text \<open>One round of the loop of \<^verbatim>\<open>appendWebviews\<close>, with \<^verbatim>\<open>appendWebview\<close> inlined: a
  file-name line in multiple-output mode, then a new surface, which becomes
  \<^verbatim>\<open>this.preview\<close>.\<close>

definition appendWebview :: "Platform \<Rightarrow> World \<Rightarrow> Modal \<Rightarrow> nat \<times> DocType \<Rightarrow> Modal" where
  "appendWebview pf w m entry =
     (let label = (if multiple m = Some True
                   then [FilenameDiv (decimal (Suc (fst entry)) @ ''-'' @ docTitle (documents w (doc (snd entry))))]
                   else [])
      in m\<lparr>webviews := webviews m @ [createWebview pf (Num (5 / 4)) (doc (snd entry))],
           preview := Some (length (webviews m)),
           previewItems := previewItems m @ label @ [SurfaceDiv (length (webviews m))]\<rparr>)"

text \<open>\<^verbatim>\<open>appendWebviews(e, render)\<close>\<close>

definition appendWebviews ::
    "App \<Rightarrow> Platform \<Rightarrow> Utils \<Rightarrow> bool \<Rightarrow> Modal \<Rightarrow> World \<Rightarrow> error + (Modal \<times> World)" where
  "appendWebviews app pf ut render m w =
     (case (if render then renderFiles app pf ut m w else Inr (m, w)) of
        Inl e \<Rightarrow> Inl e
      | Inr (m1, w1) \<Rightarrow>
          Inr (foldl (appendWebview pf w1) (m1\<lparr>previewItems := []\<rparr>) (enumerate 0 (docs m1)), w1))"

text \<open>The preview surfaces shown in the preview container.\<close>

definition shownSurfaces :: "Modal \<Rightarrow> nat list" where
  "shownSurfaces m = concat (map (\<lambda>it. case it of SurfaceDiv k \<Rightarrow> [k] | FilenameDiv s \<Rightarrow> []) (previewItems m))"

subsection \<open>\<^verbatim>\<open>calcPageSize\<close>\<close>

text \<open>The steps of \<^verbatim>\<open>Math.floor((mm2px(width) / el.offsetWidth) * 100) / 100\<close>; the
  offset width is a natural number.\<close>

fun divByWidth :: "Platform \<Rightarrow> jsnum \<Rightarrow> nat \<Rightarrow> jsnum" where
  "divByWidth pf (Num p) n =
     (if n = 0 then (if 0 < p then PosInf else if p < 0 then NegInf else NaN)
      else Num (fl pf (p / real n)))"
| "divByWidth pf PosInf n = PosInf"
| "divByWidth pf NegInf n = NegInf"
| "divByWidth pf NaN n = NaN"

fun times100 :: "Platform \<Rightarrow> jsnum \<Rightarrow> jsnum" where
  "times100 pf (Num v) = Num (fl pf (v * 100))"
| "times100 pf x = x"

fun js_floor :: "jsnum \<Rightarrow> jsnum" where
  "js_floor (Num v) = Num (of_int \<lfloor>v\<rfloor>)"
| "js_floor x = x"

fun div100 :: "Platform \<Rightarrow> jsnum \<Rightarrow> jsnum" where
  "div100 pf (Num v) = Num (fl pf (v / 100))"
| "div100 pf x = x"

definition calcScale :: "Platform \<Rightarrow> jsnum \<Rightarrow> nat \<Rightarrow> jsnum" where
  "calcScale pf pageWidthPx offsetWidth =
     div100 pf (js_floor (times100 pf (divByWidth pf pageWidthPx offsetWidth)))"

text \<open>\<^verbatim>\<open>PageSize?.[conf["pageSize"]]?.[0] ?? parseFloat(conf["pageWidth"] ?? "210")\<close>\<close>

definition pageWidthMm :: "Platform \<Rightarrow> Utils \<Rightarrow> TConfig \<Rightarrow> jsnum" where
  "pageWidthMm pf ut conf =
     (case PageSize ut (pageSize conf) of
        Some (x # xs) \<Rightarrow> Num x
      | _ \<Rightarrow> parseFloat pf (nullish (pageWidth conf) ''210''))"

definition setScale :: "Platform \<Rightarrow> jsnum \<Rightarrow> Webview \<Rightarrow> Webview" where
  "setScale pf sc wb = wb\<lparr>wvTransform := (js_inv pf sc, js_inv pf sc), wvWidth := sc, wvHeight := sc\<rparr>"

text \<open>\<^verbatim>\<open>calcPageSize(element, config)\<close>, for the offset width of the element and the
  configuration in force.\<close>

definition calcPageSize :: "Platform \<Rightarrow> Utils \<Rightarrow> nat \<Rightarrow> TConfig \<Rightarrow> Modal \<Rightarrow> Modal" where
  "calcPageSize pf ut offsetWidth conf m =
     (let sc = calcScale pf (mm2px ut (pageWidthMm pf ut conf)) offsetWidth;
          ws = (case preview m of
                  None \<Rightarrow> webviews m
                | Some i \<Rightarrow> (webviews m)[i := setScale pf sc (webviews m ! i)])
      in m\<lparr>webviews := map (setScale pf sc) ws\<rparr>)"

subsection \<open>The script of \<^verbatim>\<open>makeWebviewJs\<close>\<close>

text \<open>\<^verbatim>\<open>nodes.forEach(decodeAndReplaceEmbed)\<close> over the embed spans of a forest, in
  document order, and \<^verbatim>\<open>decodeAndReplaceEmbed\<close> on one of them. The list of spans is
  fixed before the first call: a span below a span of the list has been detached by the
  time its turn comes, so its call changes nothing that is kept, but it still runs. The
  fuel bounds the depth of the calls of \<^verbatim>\<open>decodeAndReplaceEmbed\<close> within one another.\<close>

fun decodeNode :: "Platform \<Rightarrow> nat \<Rightarrow> node \<Rightarrow> node run"
  and decodeForest :: "Platform \<Rightarrow> nat \<Rightarrow> node list \<Rightarrow> node list run" where
  "decodeNode pf k (Text s) = Returns (Text s)"
| "decodeNode pf k (Element t as cs) =
     (if matches embedSel (Element t as cs) then
        (case k of
           0 \<Rightarrow> Unfinished
         | Suc k' \<Rightarrow>
             (case decodeURIComponent pf (serializeHTML pf cs) of
                None \<Rightarrow> Raises URIError
              | Some s \<Rightarrow>
                  (case decodeForest pf k' (parseHTML pf s) of
                     Unfinished \<Rightarrow> Unfinished
                   | Raises e \<Rightarrow> Raises e
                   | Returns cs' \<Rightarrow>
                       (case decodeForest pf k cs of
                          Unfinished \<Rightarrow> Unfinished
                        | Raises e \<Rightarrow> Raises e
                        | Returns detached \<Rightarrow> Returns (Element t as cs')))))
      else
        (case decodeForest pf k cs of
           Unfinished \<Rightarrow> Unfinished
         | Raises e \<Rightarrow> Raises e
         | Returns cs' \<Rightarrow> Returns (Element t as cs')))"
| "decodeForest pf k [] = Returns []"
| "decodeForest pf k (c # cs) =
     (case decodeNode pf k c of
        Unfinished \<Rightarrow> Unfinished
      | Raises e \<Rightarrow> Raises e
      | Returns c' \<Rightarrow>
          (case decodeForest pf k cs of
             Unfinished \<Rightarrow> Unfinished
           | Raises e \<Rightarrow> Raises e
           | Returns cs' \<Rightarrow> Returns (c' # cs')))"

text \<open>\<^verbatim>\<open>`${document.body.getAttribute("class")}`\<close>\<close>

definition templateAttr :: "string option \<Rightarrow> string" where
  "templateAttr a = (case a of None \<Rightarrow> ''null'' | Some v \<Rightarrow> v)"

text \<open>\<^verbatim>\<open>makeWebviewJs(doc)\<close>: the texts it pastes into the script.\<close>

definition makeWebviewJs :: "App \<Rightarrow> Platform \<Rightarrow> Document \<Rightarrow> error + WebviewJs" where
  "makeWebviewJs app pf d =
     (case encodeURIComponent pf (serializeHTML pf (children_of (docBody d))) of
        None \<Rightarrow> Inl URIError
      | Some e \<Rightarrow>
          (case encodeURIComponent pf (serializeHTML pf (hostHead app)) of
             None \<Rightarrow> Inl URIError
           | Some h \<Rightarrow>
               Inr \<lparr>bodyText = e, headText = h, classText = templateAttr (hostBodyClass app),
                    styleText = templateAttr (hostBodyStyle app), titleText = docTitle d\<rparr>))"

text \<open>The script as it is written, every template literal having the pasted text as its
  value: the content of the body and of the head is decoded and set, the embed spans are
  decoded, the body gets the host's class and style and the light theme, and the
  document its title. (The head is not a part of the result.)\<close>

definition scriptAsWritten :: "Platform \<Rightarrow> nat \<Rightarrow> WebviewJs \<Rightarrow> Document run" where
  "scriptAsWritten pf fuel js =
     (case decodeURIComponent pf (bodyText js) of
        None \<Rightarrow> Raises URIError
      | Some s \<Rightarrow>
          (case decodeURIComponent pf (headText js) of
             None \<Rightarrow> Raises URIError
           | Some h \<Rightarrow>
               (case decodeForest pf fuel (parseHTML pf s) of
                  Unfinished \<Rightarrow> Unfinished
                | Raises err \<Rightarrow> Raises err
                | Returns cs \<Rightarrow>
                    Returns
                      \<lparr>docTitle = stripAndCollapse (titleText js),
                       docBody =
                         classListRemove ''theme-dark''
                           (classListAdd ''theme-light''
                              (Element ''body'' [(''class'', classText js), (''style'', styleText js)] cs))\<rparr>)))"

text \<open>\<^verbatim>\<open>preview.executeJavaScript(script)\<close>, giving the surface's document. The script is
  the one written when the five pasted texts stand for themselves. When only the title
  does not, and it is made of letters, digits, spaces and an odd number of backticks, the
  last backtick of the script opens a template that is never closed: the script does not
  parse and nothing of it runs. Every other script is left to the platform.\<close>

definition executeJavaScript :: "Platform \<Rightarrow> nat \<Rightarrow> WebviewJs \<Rightarrow> Document run" where
  "executeJavaScript pf fuel js =
     (if templateSafe (bodyText js) \<and> templateSafe (headText js) \<and> templateSafe (classText js)
         \<and> templateSafe (styleText js) then
        (if templateSafe (titleText js) then scriptAsWritten pf fuel js
         else if unterminated (CHR 0x60) (titleText js) then Raises SyntaxError
         else executeOther pf js)
      else executeOther pf js)"

text \<open>The surface's document after the script of \<^verbatim>\<open>makeWebviewJs(doc)\<close> has run
  (modal.ts, line 258).\<close>

definition runWebviewJs :: "App \<Rightarrow> Platform \<Rightarrow> nat \<Rightarrow> Document \<Rightarrow> Document run" where
  "runWebviewJs app pf fuel d =
     (case makeWebviewJs app pf d of
        Inl e \<Rightarrow> Raises e
      | Inr js \<Rightarrow> executeJavaScript pf fuel js)"

subsection \<open>The click handler of a surface (render.ts, lines 341 to 357)\<close>

definition pageBreak :: node where
  "pageBreak = Element ''div'' [(''class'', ''pagedjs_page_break'')] []"

definition isPageBreak :: "node \<Rightarrow> bool" where
  "isPageBreak n = (isElement n \<and> ''pagedjs_page_break'' \<in> set (classList n))"

text \<open>\<^verbatim>\<open>previousElementSibling\<close> of the child at position \<open>i\<close>: the position of the
  nearest element before it.\<close>

fun previousElementSibling :: "node list \<Rightarrow> nat \<Rightarrow> nat option" where
  "previousElementSibling cs 0 = None"
| "previousElementSibling cs (Suc j) =
     (if j < length cs \<and> isElement (cs ! j) then Some j else previousElementSibling cs j)"

text \<open>The handler among the children of the clicked element's parent: the new children
  and the clicked element's new position.\<close>

definition clickChild :: "node list \<Rightarrow> nat \<Rightarrow> node list \<times> nat" where
  "clickChild cs i =
     (case previousElementSibling cs i of
        None \<Rightarrow> (take i cs @ pageBreak # drop i cs, Suc i)
      | Some j \<Rightarrow>
          (if isPageBreak (cs ! j) then (take j cs @ drop (Suc j) cs, i - 1)
           else (take i cs @ pageBreak # drop i cs, Suc i)))"

text \<open>A click on the element at path \<open>p\<close> of the surface's document (\<open>html\<close>, the root, is the
  document element; the listener is on the body, so the root itself is never the
  target): the new document and the path at which the clicked element now is. \<open>None\<close>
  when \<open>p\<close> is not the path of an element below the root.\<close>

definition click :: "node \<Rightarrow> nat list \<Rightarrow> (node \<times> nat list) option" where
  "click html p =
     (if p = [] then None
      else
        (case nodeAt html (butlast p) of
           Some (Element t as cs) \<Rightarrow>
             (if last p < length cs \<and> isElement (cs ! last p) then
                (case clickChild cs (last p) of
                   (cs', i') \<Rightarrow> Some (updateAt (setChildNodes cs') (butlast p) html, butlast p @ [i']))
              else None)
         | _ \<Rightarrow> None))"

subsection \<open>\<^verbatim>\<open>handleExport\<close> (modal.ts, lines 311 to 338)\<close>

text \<open>What \<^verbatim>\<open>handleExport\<close> does to the outside: it saves the settings, asks for an
  output directory or an output file, requests PDFs and closes the dialog.\<close>

datatype effect =
    SaveSettings
  | AskOutputPath string
  | AskOutputFile string bool
  | ExportToPDF string "nat option" "DocType option"
  | CloseModal

text \<open>\<^verbatim>\<open>this.plugin.settings.prevConfig = this.config\<close>\<close>

definition asPrevConfig :: "TConfig \<Rightarrow> PrevConfig" where
  "asPrevConfig c =
     \<lparr>prevPageSize = Some (pageSize c), prevPageWidth = pageWidth c, prevPageHeight = pageHeight c,
      prevMarginType = Some (marginType c), prevOpen = Some (openAfter c),
      prevLandscape = Some (landscape c), prevScale = Some (scale c),
      prevShowTitle = Some (showTitle c), prevDisplayHeader = Some (displayHeader c),
      prevDisplayFooter = Some (displayFooter c), prevMarginTop = marginTop c,
      prevMarginBottom = marginBottom c, prevMarginLeft = marginLeft c,
      prevMarginRight = marginRight c, prevCssSnippet = cssSnippet c,
      prevMultiple = cfgMultiple c\<rparr>"

text \<open>\<^verbatim>\<open>(this.file as TFile)?.basename ?? this.file?.name\<close>\<close>

definition exportTitle :: "TAbstractFile \<Rightarrow> string" where
  "exportTitle f = (case f of IsFile x \<Rightarrow> basename x | IsFolder x \<Rightarrow> folderName x)"

text \<open>\<^verbatim>\<open>if (outputPath)\<close>: an answer that is neither missing nor the empty string.\<close>

definition truthyPath :: "string option \<Rightarrow> bool" where
  "truthyPath a = (a \<noteq> None \<and> a \<noteq> Some [])"

text \<open>The result of \<^verbatim>\<open>handleExport\<close>: the effects in order, the dialog afterwards, and
  whether the returned promise is rejected.\<close>

record ExportRun =
  effects :: "effect list"
  modalAfter :: Modal
  rejected :: bool

text \<open>The requests of multiple-output mode, one per surface: the callback for surface
  \<open>i\<close> raises TypeError when there is no \<^verbatim>\<open>this.docs[i]\<close>.\<close>

definition multiRequests :: "string \<Rightarrow> Modal \<Rightarrow> (effect + error) list" where
  "multiRequests dir m =
     map (\<lambda>i. case nth_opt (docs m) i of
                 None \<Rightarrow> Inr TypeError
               | Some d \<Rightarrow> Inl (ExportToPDF (dir @ ''/'' @ basename (tfile d) @ ''.pdf'') (Some i) (Some d)))
         [0 ..< length (webviews m)]"

definition requestFails :: "Utils \<Rightarrow> effect + error \<Rightarrow> bool" where
  "requestFails ut r =
     (case r of
        Inr e \<Rightarrow> True
      | Inl (ExportToPDF dest wb d) \<Rightarrow> \<not> exportToPDF ut dest
      | Inl other \<Rightarrow> False)"

text \<open>\<^verbatim>\<open>handleExport\<close>, for the answer the user gives when asked for the output
  location.\<close>

definition handleExport :: "Utils \<Rightarrow> string option \<Rightarrow> Modal \<Rightarrow> ExportRun" where
  "handleExport ut answer m =
     (let m1 = m\<lparr>settings := (settings m)\<lparr>prevConfig := Some (asPrevConfig (config m))\<rparr>\<rparr>;
          title = exportTitle (modalFile m)
      in if multiple m = Some True then
           (if truthyPath answer then
              (let rs = multiRequests (the answer) m1;
                   es = [SaveSettings, AskOutputPath title] @ concat (map (\<lambda>r. case r of Inl e \<Rightarrow> [e] | Inr x \<Rightarrow> []) rs)
               in if list_ex (requestFails ut) rs
                  then \<lparr>effects = es, modalAfter = m1, rejected = True\<rparr>
                  else \<lparr>effects = es @ [CloseModal], modalAfter = m1\<lparr>isOpen := False\<rparr>, rejected = False\<rparr>)
            else \<lparr>effects = [SaveSettings, AskOutputPath title], modalAfter = m1, rejected = False\<rparr>)
         else
           (if truthyPath answer then
              (let req = ExportToPDF (the answer) (if webviews m1 = [] then None else Some 0) (nth_opt (docs m1) 0);
                   es = [SaveSettings, AskOutputFile title (isTimestamp (settings m1)), req]
               in if exportToPDF ut (the answer)
                  then \<lparr>effects = es @ [CloseModal], modalAfter = m1\<lparr>isOpen := False\<rparr>, rejected = False\<rparr>
                  else \<lparr>effects = es, modalAfter = m1, rejected = True\<rparr>)
            else \<lparr>effects = [SaveSettings, AskOutputFile title (isTimestamp (settings m1))],
                  modalAfter = m1, rejected = False\<rparr>))"

chapter \<open>Example values\<close>

text \<open>Concrete settings, files and dialogs on which the theorems below are exercised.\<close>

definition exampleSettings :: Settings where
  "exampleSettings =
     \<lparr>setShowTitle = None, setDisplayHeader = Some False, isTimestamp = False, prevConfig = None\<rparr>"

definition exampleFile :: TFile where
  "exampleFile = \<lparr>path = ''notes/a.md'', basename = ''a''\<rparr>"

definition exampleFile2 :: TFile where
  "exampleFile2 = \<lparr>path = ''notes/b.md'', basename = ''b''\<rparr>"

text \<open>\<open>exampleUtils\<close>: A4 is 210 by 297 millimetres, a millimetre is 3.779527559 pixels
  (rounded to a whole pixel), a folder holds the two example files, anchors are left as
  they are and every PDF request succeeds.\<close>

definition exampleUtils :: Utils where
  "exampleUtils =
     \<lparr>PageSize = (\<lambda>k. if k = ''A4'' then Some [210, 297] else None),
      mm2px = (\<lambda>x. case x of Num v \<Rightarrow> Num (of_int \<lfloor>v * 3779527559 / 1000000000 + 1 / 2\<rfloor>) | other \<Rightarrow> other),
      traverseFolder = (\<lambda>fo. [exampleFile, exampleFile2]),
      modifyDestAndFixAnchors = (\<lambda>title body. body),
      copyAttributes = (\<lambda>img as. foldl (\<lambda>n kv. setAttribute (fst kv) (snd kv) n) img as),
      exportToPDF = (\<lambda>dest. True)\<rparr>"

definition exampleModal :: Modal where
  "exampleModal = constructor exampleSettings (IsFile exampleFile) None"

text \<open>A small platform. Its HTML serializer writes an element as a start tag with its
  attributes, its children and an end tag, and text as it is (no character references,
  no void elements); its parser reads that form back. Its URI functions percent-encode
  every character but the unreserved ones, byte by byte. Its numbers are exact. It
  refuses every selector text and every script whose reading the model leaves open.\<close>

definition serializeAttr :: "string \<times> string \<Rightarrow> string" where
  \<open>serializeAttr kv = '' '' @ fst kv @ ''="'' @ snd kv @ ''"''\<close>

fun serializeNode :: "node \<Rightarrow> string" where
  "serializeNode (Text s) = s"
| "serializeNode (Element t as cs) =
     ''<'' @ t @ concat (map serializeAttr as) @ ''>''
     @ concat (map serializeNode cs) @ ''</'' @ t @ ''>''"

definition serializeNodes :: "node list \<Rightarrow> string" where
  "serializeNodes ns = concat (map serializeNode ns)"

datatype token = TokText string | TokOpen string "(string \<times> string) list" | TokClose string

text \<open>The attributes of a start tag: the text after the tag name, read as
  \<^verbatim>\<open> key="value"\<close> groups. The fuel is the length of the text.\<close>

fun parseAttrs :: "nat \<Rightarrow> string \<Rightarrow> (string \<times> string) list" where
  "parseAttrs 0 s = []"
| "parseAttrs (Suc n) s =
     (let s1 = dropWhile (\<lambda>c. c = CHR '' '') s;
          k = takeWhile (\<lambda>c. c \<noteq> CHR ''='') s1;
          s2 = drop 2 (dropWhile (\<lambda>c. c \<noteq> CHR ''='') s1);
          v = takeWhile (\<lambda>c. c \<noteq> CHR 0x22) s2;
          s3 = drop 1 (dropWhile (\<lambda>c. c \<noteq> CHR 0x22) s2)
      in if s1 = [] then [] else (k, v) # parseAttrs n s3)"

definition parseTag :: "string \<Rightarrow> token" where
  "parseTag tag =
     (if startsWith tag ''/'' then TokClose (drop 1 tag)
      else TokOpen (takeWhile (\<lambda>c. c \<noteq> CHR '' '') tag)
             (parseAttrs (length tag) (dropWhile (\<lambda>c. c \<noteq> CHR '' '') tag)))"

fun tokenize :: "nat \<Rightarrow> string \<Rightarrow> token list" where
  "tokenize 0 s = []"
| "tokenize (Suc n) [] = []"
| "tokenize (Suc n) (c # r) =
     (if c = CHR ''<'' then
        parseTag (takeWhile (\<lambda>x. x \<noteq> CHR ''>'') r)
        # tokenize n (drop 1 (dropWhile (\<lambda>x. x \<noteq> CHR ''>'') r))
      else
        TokText (takeWhile (\<lambda>x. x \<noteq> CHR ''<'') (c # r))
        # tokenize n (dropWhile (\<lambda>x. x \<noteq> CHR ''<'') (c # r)))"

text \<open>The tree of a token list: \<open>st\<close> holds the open elements, each with the siblings
  before it, and \<open>cur\<close> the children read so far, both latest first.\<close>

fun buildTree ::
    "token list \<Rightarrow> (string \<times> (string \<times> string) list \<times> node list) list \<Rightarrow> node list \<Rightarrow> node list" where
  "buildTree [] [] cur = rev cur"
| "buildTree [] (fr # st) cur = buildTree [] st (Element (fst fr) (fst (snd fr)) (rev cur) # snd (snd fr))"
| "buildTree (TokText s # ts) st cur = buildTree ts st (Text s # cur)"
| "buildTree (TokOpen t as # ts) st cur = buildTree ts ((t, as, cur) # st) []"
| "buildTree (TokClose t # ts) [] cur = buildTree ts [] cur"
| "buildTree (TokClose t # ts) (fr # st) cur =
     buildTree ts st (Element (fst fr) (fst (snd fr)) (rev cur) # snd (snd fr))"

definition parseNodes :: "string \<Rightarrow> node list" where
  "parseNodes s = buildTree (tokenize (length s) s) [] []"

definition unreserved :: "char \<Rightarrow> bool" where
  "unreserved c =
     (let k = (of_char c :: nat)
      in (65 \<le> k \<and> k \<le> 90) \<or> (97 \<le> k \<and> k \<le> 122) \<or> (48 \<le> k \<and> k \<le> 57)
         \<or> k = 45 \<or> k = 95 \<or> k = 46 \<or> k = 33 \<or> k = 126 \<or> k = 42 \<or> k = 39 \<or> k = 40 \<or> k = 41)"

definition hexUpper :: "nat \<Rightarrow> char" where
  "hexUpper k = char_of (if k < 10 then 48 + k else 55 + k)"

definition unhexDigit :: "char \<Rightarrow> nat option" where
  "unhexDigit c =
     (let k = (of_char c :: nat)
      in if 48 \<le> k \<and> k \<le> 57 then Some (k - 48)
         else if 65 \<le> k \<and> k \<le> 70 then Some (k - 55)
         else if 97 \<le> k \<and> k \<le> 102 then Some (k - 87)
         else None)"

definition percentEncodeChar :: "char \<Rightarrow> string" where
  "percentEncodeChar c =
     (if unreserved c then [c]
      else [CHR ''%'', hexUpper ((of_char c :: nat) div 16), hexUpper ((of_char c :: nat) mod 16)])"

definition percentEncode :: "string \<Rightarrow> string" where
  "percentEncode s = concat (map percentEncodeChar s)"

fun percentDecode :: "string \<Rightarrow> string option" where
  "percentDecode [] = Some []"
| "percentDecode [c] = (if c = CHR ''%'' then None else Some [c])"
| "percentDecode [c, d] = (if c = CHR ''%'' \<or> d = CHR ''%'' then None else Some [c, d])"
| "percentDecode (c # d # e # r) =
     (if c = CHR ''%'' then
        (case (unhexDigit d, unhexDigit e) of
           (Some a, Some b) \<Rightarrow> map_option (Cons (char_of (16 * a + b))) (percentDecode r)
         | _ \<Rightarrow> None)
      else map_option (Cons c) (percentDecode (d # e # r)))"

definition examplePlatform :: Platform where
  "examplePlatform =
     \<lparr>serializeHTML = serializeNodes, parseHTML = parseNodes,
      encodeURIComponent = (\<lambda>s. Some (percentEncode s)), decodeURIComponent = percentDecode,
      fl = (\<lambda>x. x), randomHex = (\<lambda>k. k mod 16), randomUUID = (\<lambda>k. ''id'' @ decimal k),
      parseFloat = (\<lambda>s. NaN),
      querySelectorOther = (\<lambda>sel n. Inl DOMSyntaxError),
      executeOther = (\<lambda>js. Raises SyntaxError)\<rparr>"

definition examplePrintEl :: node where
  "examplePrintEl =
     Element ''div'' [(''class'', ''print'')]
       [Element ''a'' [(''class'', ''internal-link''), (''data-href'', ''#^b1''), (''href'', ''#^b1'')]
          [Text ''here''],
        Element ''a'' [(''class'', ''internal-link''), (''data-href'', ''Other#Heading''), (''href'', ''Other#Heading'')]
          [Text ''there'']]"

text \<open>The document of a surface with the given body content, and a paragraph.\<close>

definition exampleSurface :: "node list \<Rightarrow> node" where
  "exampleSurface cs = Element ''html'' [] [Element ''head'' [] [], Element ''body'' [] cs]"

definition examplePara :: node where
  "examplePara = Element ''p'' [] [Text ''x'']"

text \<open>A list whose first item has nested items and carries its anchor \<^verbatim>\<open>^a\<close> on a line
  of its own after the list, with a nested item anchored \<^verbatim>\<open>^ab\<close>; and a text with two
  anchors.\<close>

definition blockA :: BlockCache where
  "blockA = \<lparr>block_id = ''a'', startLine = 0, endLine = 3\<rparr>"

definition blockAB :: BlockCache where
  "blockAB = \<lparr>block_id = ''ab'', startLine = 1, endLine = 1\<rparr>"

definition exampleIndex :: blockMap where
  "exampleIndex = [(''a'', blockA), (''ab'', blockAB)]"

definition exampleLines :: "string list" where
  "exampleLines = [''- parent'', ''  - child ^ab'', '''', ''^a'']"

definition blockB1 :: BlockCache where
  "blockB1 = \<lparr>block_id = ''b1'', startLine = 0, endLine = 0\<rparr>"

definition blockB2 :: BlockCache where
  "blockB2 = \<lparr>block_id = ''b2'', startLine = 1, endLine = 2\<rparr>"

text \<open>A host application whose renderer makes one paragraph of the whole text and whose
  post-processing and deferred rendering change nothing; a dialog for a folder; and a world with two rendered
  documents.\<close>

definition exampleApp :: App where
  "exampleApp =
     \<lparr>viewData = (\<lambda>f. Some (''# '' @ basename f)), fileFrontMatter = (\<lambda>f. None),
      fileBlocks = (\<lambda>f. None), fileLinks = (\<lambda>f. None), getFirstLinkpathDest = (\<lambda>l src. None),
      rightToLeft = False, propertiesInDocument = ''visible'',
      markdownRender = (\<lambda>md p. Some [Element ''p'' [] [Text md]]),
      markdownPostProcess = (\<lambda>docId p el. el),
      domChangesWhileWaiting = (\<lambda>long docId p el. el), canvasDataURL = (\<lambda>c. ''data:,''),
      hostHead = [], hostBodyClass = Some ''theme-dark'', hostBodyStyle = None\<rparr>"

definition folderModal :: Modal where
  "folderModal = constructor exampleSettings (IsFolder \<lparr>folderPath = ''notes'', folderName = ''notes''\<rparr>) None"

definition exampleDoc :: "string \<Rightarrow> node list \<Rightarrow> Document" where
  "exampleDoc title nodes =
     \<lparr>docTitle = title,
      docBody = Element ''body'' []
        [Element ''div'' [(''class'', ''print'')]
           [Element ''div'' [(''class'', ''markdown-preview-view markdown-rendered'')] nodes]]\<rparr>"

definition exampleWorld :: World where
  "exampleWorld =
     \<lparr>documents = (\<lambda>r. if r = 0 then exampleDoc ''a'' [Element ''h1'' [] [Text ''a''], Text ''loose'', examplePara]
                        else exampleDoc ''b'' [Element ''h1'' [] [Text ''b'']]),
      freshRef = 2, activePath = None, randomPos = 0, uuidPos = 0, notices = []\<rparr>"

definition exampleDocs :: "DocType list" where
  "exampleDocs = [\<lparr>doc = 0, frontMatter = [], tfile = exampleFile\<rparr>, \<lparr>doc = 1, frontMatter = [], tfile = exampleFile2\<rparr>]"

text \<open>A document with an embed span within an embed span.\<close>

definition exampleEmbedDoc :: Document where
  "exampleEmbedDoc =
     \<lparr>docTitle = ''a'',
      docBody = Element ''body'' []
        [Element ''p'' [] [Text ''before''],
         Element ''span'' [(''class'', ''markdown-embed'')]
           [Element ''p'' [] [Text ''outer''],
            Element ''span'' [(''class'', ''markdown-embed'')] [Element ''b'' [] [Text ''inner'']]]]\<rparr>"

text \<open>The same document under a title with a backtick.\<close>

definition exampleBacktickDoc :: Document where
  "exampleBacktickDoc = exampleEmbedDoc\<lparr>docTitle := ''a`b''\<rparr>"

text \<open>A note \<^verbatim>\<open>a\<close> with a block anchor and two internal links, one to its own block and one
  to a heading of another note. The host's renderer makes a paragraph of the text it is
  handed and a paragraph of the two links, and its post-processing writes the document id
  on the view element. A second host does the same for a right-to-left vault and writes
  the document id and the source path.\<close>

definition linkApp :: App where
  "linkApp =
     exampleApp
       \<lparr>viewData := (\<lambda>f. Some ''text ^b1''),
        fileBlocks := (\<lambda>f. Some [(''b1'', blockB1)]),
        markdownRender := (\<lambda>md p. Some [Element ''p'' [] [Text md], Element ''p'' [] (children_of examplePrintEl)]),
        markdownPostProcess := (\<lambda>docId p el. setAttribute ''data-doc'' docId el)\<rparr>"


text \<open>A note that embeds another note. The renderer leaves an empty embed span; the
  content of the embedded note, a link to one of its headings, arrives while the program
  waits the two seconds it adds for a text with an embed.\<close>

definition lateLink :: node where
  "lateLink =
     Element ''a''
       [(''class'', ''internal-link''), (''data-href'', ''Other#Heading''), (''href'', ''Other#Heading'')]
       [Text ''Heading'']"

definition embedApp :: App where
  "embedApp =
     exampleApp
       \<lparr>viewData := (\<lambda>f. Some ''![[Other]]''),
        markdownRender :=
          (\<lambda>md p. Some [Element ''p'' [] [Element ''span'' [(''class'', ''internal-embed''), (''src'', ''Other'')] []]]),
        domChangesWhileWaiting :=
          (\<lambda>long docId p el.
             if long then
               updateAt (setChildNodes [lateLink]) [1, 0, 0] el
             else el)\<rparr>"

chapter \<open>Properties\<close>

section \<open>The default of the footer flag\<close>

text \<open>
  Claim C10. When the stored previous configuration does not set \<^verbatim>\<open>displayFooter\<close> (in
  particular when there is none), the constructor's \<^verbatim>\<open>displayFooter\<close> is
  \<^verbatim>\<open>settings.displayHeader ?? true\<close>; and when there is no previous configuration at all,
  the footer flag and the header flag are equal. The settings may hold any further
  fields (the record is extensible): none of them is read.
\<close>

theorem footer_default_is_header_default:
  fixes s :: "'a Settings_scheme"
  shows "((\<forall>p. prevConfig s = Some p \<longrightarrow> prevDisplayFooter p = None) \<longrightarrow>
            displayFooter (initialConfig s) = nullish (setDisplayHeader s) True)
       \<and> (prevConfig s = None \<longrightarrow>
            displayFooter (initialConfig s) = displayHeader (initialConfig s)
          \<and> displayFooter (initialConfig s) = nullish (setDisplayHeader s) True)"
  by (cases "prevConfig s")
     (simp_all add: initialConfig_def spreadPrev_def baseConfig_def nullish_def emptyPrev_def)

theorem footer_default_is_header_default_witness:
  "prevConfig exampleSettings = None
   \<and> displayFooter (initialConfig exampleSettings) = False
   \<and> displayHeader (initialConfig exampleSettings) = False"
  using footer_default_is_header_default [of exampleSettings]
  by (auto simp add: exampleSettings_def nullish_def)

section \<open>Declining the output location\<close>

text \<open>
  Claim C8. When the user gives no output location (the answer is missing or empty),
  \<^verbatim>\<open>handleExport\<close> saves the settings, asks, and does nothing more: it requests no PDF,
  does not close the dialog, is not rejected, and leaves the dialog as it was but for the
  previous configuration stored in the settings before the question.
\<close>

theorem declined_export_is_abandoned:
  assumes "\<not> truthyPath answer"
  shows "effects (handleExport ut answer m) =
           [SaveSettings,
            if multiple m = Some True then AskOutputPath (exportTitle (modalFile m))
            else AskOutputFile (exportTitle (modalFile m)) (isTimestamp (settings m))]
       \<and> CloseModal \<notin> set (effects (handleExport ut answer m))
       \<and> (\<forall>dest wb d. ExportToPDF dest wb d \<notin> set (effects (handleExport ut answer m)))
       \<and> \<not> rejected (handleExport ut answer m)
       \<and> modalAfter (handleExport ut answer m)
           = m\<lparr>settings := (settings m)\<lparr>prevConfig := Some (asPrevConfig (config m))\<rparr>\<rparr>
       \<and> isOpen (modalAfter (handleExport ut answer m)) = isOpen m"
  using assms by (simp add: handleExport_def Let_def)

theorem declined_export_is_abandoned_witness:
  "\<not> truthyPath None
   \<and> effects (handleExport exampleUtils None (exampleModal\<lparr>isOpen := True\<rparr>))
       = [SaveSettings, AskOutputFile ''a'' False]
   \<and> isOpen (modalAfter (handleExport exampleUtils None (exampleModal\<lparr>isOpen := True\<rparr>)))"
  using declined_export_is_abandoned [of None exampleUtils "exampleModal\<lparr>isOpen := True\<rparr>"]
  by (simp add: truthyPath_def exampleModal_def constructor_def exportTitle_def exampleFile_def
        exampleSettings_def)

section \<open>The preview scale\<close>

lemma setScale_idem: "setScale pf sc (setScale pf sc wb) = setScale pf sc wb"
  by (simp add: setScale_def)

lemma map_setScale_update:
  "map (setScale pf sc) (ws[i := setScale pf sc (ws ! i)]) = map (setScale pf sc) ws"
proof (cases "i < length ws")
  case True
  then show ?thesis
    by (simp add: map_update setScale_idem list_eq_iff_nth_eq nth_list_update)
next
  case False
  then show ?thesis by (simp add: list_update_beyond)
qed

lemma calcPageSize_webviews:
  "calcPageSize pf ut n conf m =
     m\<lparr>webviews := map (setScale pf (calcScale pf (mm2px ut (pageWidthMm pf ut conf)) n)) (webviews m)\<rparr>"
  by (cases "preview m") (simp_all add: calcPageSize_def Let_def map_setScale_update)

lemma calcScale_Num:
  "0 < n \<Longrightarrow> calcScale pf (Num p) n = Num (fl pf (of_int \<lfloor>fl pf (fl pf (p / real n) * 100)\<rfloor> / 100))"
  by (simp add: calcScale_def)

lemma calcScale_antitone:
  assumes "mono (fl pf)" "0 \<le> p" "0 < c1" "c1 \<le> c2"
  shows "fl pf (of_int \<lfloor>fl pf (fl pf (p / real c2) * 100)\<rfloor> / 100)
       \<le> fl pf (of_int \<lfloor>fl pf (fl pf (p / real c1) * 100)\<rfloor> / 100)"
proof -
  have "p / real c2 \<le> p / real c1"
    using assms by (simp add: frac_le)
  then have "fl pf (p / real c2) * 100 \<le> fl pf (p / real c1) * 100"
    using assms(1) by (simp add: monoD)
  then have "\<lfloor>fl pf (fl pf (p / real c2) * 100)\<rfloor> \<le> \<lfloor>fl pf (fl pf (p / real c1) * 100)\<rfloor>"
    using assms(1) by (intro floor_mono) (rule monoD)
  then have "real_of_int \<lfloor>fl pf (fl pf (p / real c2) * 100)\<rfloor> / 100
           \<le> real_of_int \<lfloor>fl pf (fl pf (p / real c1) * 100)\<rfloor> / 100"
    by simp
  then show ?thesis
    using assms(1) by (rule monoD [rotated])
qed

text \<open>
  Claim C5. The scale \<^verbatim>\<open>Math.floor((pageWidthPx / containerWidthPx) * 100) / 100\<close> is
  computed from the page width and the container width alone, so \<^verbatim>\<open>calcPageSize\<close> run
  again on its own result with the same inputs changes nothing; and for a fixed finite
  page width that is not negative, a wider (non-empty) container never gives a larger
  scale. The statement holds for every rounding \<open>fl\<close> of the arithmetic that is monotone,
  as rounding to the nearest double is. The floor makes the scale a step function: it
  decreases weakly, not strictly.
\<close>

theorem preview_scale_idempotent_and_antitone:
  assumes "mono (fl pf)" and "0 \<le> p" and "0 < c1" and "c1 \<le> c2"
  shows "calcPageSize pf ut n conf (calcPageSize pf ut n conf m) = calcPageSize pf ut n conf m
       \<and> (\<exists>s1 s2. calcScale pf (Num p) c1 = Num s1 \<and> calcScale pf (Num p) c2 = Num s2 \<and> s2 \<le> s1)"
proof
  show "calcPageSize pf ut n conf (calcPageSize pf ut n conf m) = calcPageSize pf ut n conf m"
    by (simp add: calcPageSize_webviews setScale_idem comp_def)
  show "\<exists>s1 s2. calcScale pf (Num p) c1 = Num s1 \<and> calcScale pf (Num p) c2 = Num s2 \<and> s2 \<le> s1"
    using assms calcScale_antitone [OF assms] by (simp add: calcScale_Num)
qed

theorem preview_scale_idempotent_and_antitone_witness:
  "mono (fl examplePlatform)
   \<and> calcScale examplePlatform (Num 794) 500 = Num (79 / 50)
   \<and> calcScale examplePlatform (Num 794) 1000 = Num (79 / 100)
   \<and> calcPageSize examplePlatform exampleUtils 500 (config exampleModal)
        (calcPageSize examplePlatform exampleUtils 500 (config exampleModal) exampleModal)
      = calcPageSize examplePlatform exampleUtils 500 (config exampleModal) exampleModal"
proof -
  have m: "mono (fl examplePlatform)"
    by (simp add: examplePlatform_def mono_def)
  show ?thesis
    using m preview_scale_idempotent_and_antitone
            [OF m, of 794 500 1000 exampleUtils 500 "config exampleModal" exampleModal]
    by (simp add: calcScale_def examplePlatform_def)
qed

section \<open>Internal links\<close>

lemma matches_attrs_only:
  "matches sel (Element t as cs) = matches sel (Element t as cs')"
  by (cases sel) (simp_all add: classList_def)

lemma hrefParts_attrs_only: "hrefParts (Element t as cs) = hrefParts (Element t as cs')"
  by (simp add: hrefParts_def)

lemma keepsHref_attrs_only: "keepsHref base (Element t as cs) = keepsHref base (Element t as cs')"
  by (simp add: keepsHref_def linkTitle_def linkAnchor_def hrefParts_attrs_only [of t as cs cs'])

lemma repairBelow_Element:
  "repairBelow base (Element t as cs) =
     Element t (if matches internalLinkSel (Element t as cs) \<and> \<not> keepsHref base (Element t as cs)
                then filter (\<lambda>kv. fst kv \<noteq> ''href'') as else as)
               (map (repairBelow base) cs)"
  using matches_attrs_only [of internalLinkSel t as "map (repairBelow base) cs" cs]
        keepsHref_attrs_only [of base t as "map (repairBelow base) cs" cs]
  by (simp add: repairLink_def)

lemma nodeAt_repairBelow:
  "nodeAt (repairBelow base n) p = map_option (repairBelow base) (nodeAt n p)"
proof (induction p arbitrary: n)
  case Nil
  show ?case by simp
next
  case (Cons i p)
  show ?case
  proof (cases n)
    case (Element t as cs)
    then show ?thesis
      using Cons.IH [of "cs ! i"] by (simp add: repairBelow_Element del: repairBelow.simps)
  next
    case (Text s)
    then show ?thesis by simp
  qed
qed

lemma nodeAt_repairLinks:
  "p \<noteq> [] \<Longrightarrow> nodeAt (repairLinks base printEl) p = map_option (repairBelow base) (nodeAt printEl p)"
proof (cases p)
  case Nil
  assume "p \<noteq> []"
  with Nil show ?thesis by simp
next
  case (Cons i q)
  show ?thesis
  proof (cases printEl)
    case (Element t as cs)
    then show ?thesis
      using Cons nodeAt_repairBelow [of base "cs ! i" q] by (simp add: repairLinks_def)
  next
    case (Text s)
    then show ?thesis using Cons by (simp add: repairLinks_def)
  qed
qed

lemma map_of_filter_neq:
  "map_of (filter (\<lambda>kv. fst kv \<noteq> k) as) k' = (if k' = k then None else map_of as k')"
  by (induction as) auto

section \<open>Paths\<close>

lemma nodeAt_updateAt_same:
  "nodeAt t q = Some n \<Longrightarrow> nodeAt (updateAt f q t) q = Some (f n)"
proof (induction q arbitrary: t)
  case Nil
  then show ?case by simp
next
  case (Cons i q)
  then show ?case by (cases t) (auto split: if_splits)
qed

lemma updateAt_updateAt_same:
  "nodeAt t q = Some n \<Longrightarrow> updateAt g q (updateAt f q t) = updateAt (\<lambda>x. g (f x)) q t"
proof (induction q arbitrary: t)
  case Nil
  then show ?case by simp
next
  case (Cons i q)
  then show ?case by (cases t) (auto split: if_splits)
qed

lemma updateAt_ident:
  "nodeAt t q = Some n \<Longrightarrow> f n = n \<Longrightarrow> updateAt f q t = t"
proof (induction q arbitrary: t)
  case Nil
  then show ?case by simp
next
  case (Cons i q)
  then show ?case by (cases t) (auto split: if_splits simp: list_update_same_conv)
qed

lemma updateAt_cong_at:
  "nodeAt t q = Some n \<Longrightarrow> f n = g n \<Longrightarrow> updateAt f q t = updateAt g q t"
proof (induction q arbitrary: t)
  case Nil
  then show ?case by simp
next
  case (Cons i q)
  then show ?case by (cases t) (auto split: if_splits)
qed

section \<open>The page-break toggle\<close>

lemma isPageBreak_pageBreak: "isPageBreak pageBreak"
  by (simp add: isPageBreak_def pageBreak_def classList_def asciiWhitespace_def)

lemma previous_after_insert:
  "i \<le> length cs \<Longrightarrow> previousElementSibling (take i cs @ pageBreak # drop i cs) (Suc i) = Some i"
  by (simp add: nth_append pageBreak_def)

lemma clickChild_after_insert:
  assumes "i \<le> length cs"
  shows "clickChild (take i cs @ pageBreak # drop i cs) (Suc i) = (cs, i)"
proof -
  have "(take i cs @ pageBreak # drop i cs) ! i = pageBreak"
    using assms by (simp add: nth_append)
  moreover have "take i (take i cs @ pageBreak # drop i cs) @ drop (Suc i) (take i cs @ pageBreak # drop i cs) = cs"
    using assms by simp
  ultimately show ?thesis
    using isPageBreak_pageBreak previous_after_insert [OF assms]
    by (simp add: clickChild_def del: previousElementSibling.simps)
qed

text \<open>
  Claim C7, as amended. A click on an element looks at its previous element sibling (text
  between the two is skipped). If that sibling is a page-break marker, the marker is
  removed. Otherwise a new marker is inserted immediately before the clicked element, and
  then a second click on the same element removes that marker and gives back the document
  as it was.
\<close>

theorem page_break_toggle:
  assumes "click html p = Some (h1, p1)" and "nodeAt html (butlast p) = Some parent"
  shows "(\<forall>j. previousElementSibling (children_of parent) (last p) = Some j \<and> isPageBreak (children_of parent ! j) \<longrightarrow>
            nodeAt h1 (butlast p)
              = Some (setChildNodes (take j (children_of parent) @ drop (Suc j) (children_of parent)) parent)
            \<and> p1 = butlast p @ [last p - 1])
       \<and> (\<not> (\<exists>j. previousElementSibling (children_of parent) (last p) = Some j \<and> isPageBreak (children_of parent ! j)) \<longrightarrow>
            nodeAt h1 (butlast p)
              = Some (setChildNodes (take (last p) (children_of parent) @ pageBreak # drop (last p) (children_of parent)) parent)
            \<and> p1 = butlast p @ [Suc (last p)]
            \<and> click h1 p1 = Some (html, p))"
proof (cases parent)
  case (Text s)
  with assms show ?thesis by (simp add: click_def split: if_splits)
next
  case (Element t as cs)
  let ?i = "last p"
  from assms Element have ne: "p \<noteq> []" and len: "?i < length cs" and el: "isElement (cs ! ?i)"
    and res: "(h1, p1) = (case clickChild cs ?i of (cs', i') \<Rightarrow> (updateAt (setChildNodes cs') (butlast p) html, butlast p @ [i']))"
    by (auto simp add: click_def split: if_splits prod.splits)
  show ?thesis
  proof (intro conjI allI impI)
    fix j
    assume a: "previousElementSibling (children_of parent) ?i = Some j \<and> isPageBreak (children_of parent ! j)"
    with res Element have h1: "h1 = updateAt (setChildNodes (take j cs @ drop (Suc j) cs)) (butlast p) html"
      and p1: "p1 = butlast p @ [?i - 1]"
      by (simp_all add: clickChild_def)
    show "nodeAt h1 (butlast p) = Some (setChildNodes (take j (children_of parent) @ drop (Suc j) (children_of parent)) parent)"
      using h1 assms(2) Element by (simp add: nodeAt_updateAt_same)
    show "p1 = butlast p @ [?i - 1]" by (rule p1)
  next
    assume a: "\<not> (\<exists>j. previousElementSibling (children_of parent) ?i = Some j \<and> isPageBreak (children_of parent ! j))"
    let ?cs' = "take ?i cs @ pageBreak # drop ?i cs"
    from a res Element have h1: "h1 = updateAt (setChildNodes ?cs') (butlast p) html"
      and p1: "p1 = butlast p @ [Suc ?i]"
      by (auto simp add: clickChild_def split: option.splits)
    show n1: "nodeAt h1 (butlast p) = Some (setChildNodes (take ?i (children_of parent) @ pageBreak # drop ?i (children_of parent)) parent)"
      using h1 assms(2) Element by (simp add: nodeAt_updateAt_same)
    show "p1 = butlast p @ [Suc ?i]" by (rule p1)
    have undo: "updateAt (setChildNodes cs) (butlast p) h1 = html"
      using assms(2) Element unfolding h1
      by (simp add: updateAt_updateAt_same [of html "butlast p" parent] updateAt_ident [of html "butlast p" parent])
    have "(take ?i cs @ pageBreak # drop ?i cs) ! Suc ?i = cs ! ?i"
      using len by (simp add: nth_append)
    then show "click h1 p1 = Some (html, p)"
      using n1 Element len el ne undo
      by (simp add: click_def p1 clickChild_after_insert)
  qed
qed


lemmas click_eval = click_def clickChild_def exampleSurface_def examplePara_def pageBreak_def
  isPageBreak_def classList_def asciiWhitespace_def

theorem page_break_toggle_witness:
  "click (exampleSurface [examplePara]) [1, 0] = Some (exampleSurface [pageBreak, examplePara], [1, 1])
   \<and> nodeAt (exampleSurface [examplePara]) (butlast [1, 0]) = Some (Element ''body'' [] [examplePara])
   \<and> click (exampleSurface [pageBreak, examplePara]) [1, 1] = Some (exampleSurface [examplePara], [1, 0])"
  using page_break_toggle [of "exampleSurface [examplePara]" "[1, 0]"
          "exampleSurface [pageBreak, examplePara]" "[1, 1]" "Element ''body'' [] [examplePara]"]
  by (simp add: click_eval)

text \<open>
  Two clicks do not always give the document back. From a document with one paragraph, a
  click on the paragraph and a click on the marker it made leave two markers before the
  paragraph; two clicks on the paragraph then remove both.
\<close>

theorem two_clicks_counterexample:
  "click (exampleSurface [examplePara]) [1, 0] = Some (exampleSurface [pageBreak, examplePara], [1, 1])
   \<and> click (exampleSurface [pageBreak, examplePara]) [1, 0]
       = Some (exampleSurface [pageBreak, pageBreak, examplePara], [1, 1])
   \<and> click (exampleSurface [pageBreak, pageBreak, examplePara]) [1, 2]
       = Some (exampleSurface [pageBreak, examplePara], [1, 1])
   \<and> click (exampleSurface [pageBreak, examplePara]) [1, 1] = Some (exampleSurface [examplePara], [1, 0])
   \<and> exampleSurface [examplePara] \<noteq> exampleSurface [pageBreak, pageBreak, examplePara]"
  by (simp add: click_eval numeral_2_eq_2)

section \<open>Block anchors\<close>

lemma anchorLines_append:
  "anchorLines bs k (xs @ ys) =
     (case anchorLines bs k xs of
        (o1, r1) \<Rightarrow> (case anchorLines r1 (k + length xs) ys of (o2, r2) \<Rightarrow> (o1 @ o2, r2)))"
  by (induction xs arbitrary: bs k) (auto split: prod.splits)

lemma length_anchorLines: "length (fst (anchorLines bs k ls)) = length ls"
proof (induction ls arbitrary: bs k)
  case Nil
  show ?case by simp
next
  case (Cons l ls)
  obtain l' bs' where a: "anchorLine bs k l = (l', bs')" by (cases "anchorLine bs k l")
  show ?case
    using Cons.IH [of bs' "Suc k"] a by (auto split: prod.splits)
qed

lemma remainingAt_0: "remainingAt bs ls 0 = bs"
  by (simp add: remainingAt_def)

lemma remainingAt_Suc:
  assumes "i < length ls"
  shows "remainingAt bs ls (Suc i) = snd (anchorLine (remainingAt bs ls i) i (ls ! i))"
proof -
  have "take (Suc i) ls = take i ls @ [ls ! i]"
    using assms by (simp add: take_Suc_conv_app_nth)
  then show ?thesis
    using assms by (simp add: remainingAt_def anchorLines_append split: prod.splits)
qed

lemma remainingAt_length: "snd (anchorLines bs 0 ls) = remainingAt bs ls (length ls)"
  by (simp add: remainingAt_def)

lemma anchorLines_nth:
  assumes "i < length ls"
  shows "fst (anchorLines bs 0 ls) ! i = fst (anchorLine (remainingAt bs ls i) i (ls ! i))"
proof -
  have "ls = take i ls @ ls ! i # drop (Suc i) ls"
    using assms by (simp add: id_take_nth_drop)
  then have eq: "anchorLines bs 0 ls = anchorLines bs 0 (take i ls @ ls ! i # drop (Suc i) ls)"
    by simp
  obtain o1 r1 where p: "anchorLines bs 0 (take i ls) = (o1, r1)"
    by (cases "anchorLines bs 0 (take i ls)")
  then have len: "length o1 = i"
    using length_anchorLines [of bs 0 "take i ls"] assms by simp
  show ?thesis
    unfolding eq using p len assms
    by (auto simp add: anchorLines_append remainingAt_def nth_append split: prod.splits)
qed

lemma anchorLine_fst:
  "fst (anchorLine r i l) =
     (case find (blockMatches l i) (map snd r) of None \<Rightarrow> l | Some b \<Rightarrow> wrapLine l b)"
  by (simp add: anchorLine_def split: option.splits)

lemma anchorLine_snd:
  "snd (anchorLine r i l) =
     (case find (blockMatches l i) (map snd r) of None \<Rightarrow> r | Some b \<Rightarrow> mapDelete (block_id b) r)"
  by (simp add: anchorLine_def split: option.splits)

lemma find_filter: "find P (filter Q xs) = find (\<lambda>x. Q x \<and> P x) xs"
  by (induction xs) auto

lemma find_in_set: "find P xs = Some x \<Longrightarrow> x \<in> set xs \<and> P x"
  by (induction xs) (auto split: if_splits)

lemma key_inj:
  "distinct (map fst bs) \<Longrightarrow> x \<in> set bs \<Longrightarrow> y \<in> set bs \<Longrightarrow> fst x = fst y \<Longrightarrow> x = y"
  by (metis eq_key_imp_eq_value prod.collapse)

lemma delete_by_id:
  assumes "indexById bs" and "b \<in> snd ` set bs" and "kb \<in> set bs"
  shows "(fst kb \<noteq> block_id b) = (snd kb \<noteq> b)"
proof -
  from assms(2) obtain kb' where kb': "kb' \<in> set bs" "snd kb' = b" by auto
  with assms(1) have k': "fst kb' = block_id b" by (auto simp: indexById_def)
  have "fst kb = fst kb' \<Longrightarrow> kb = kb'"
    using assms(1,3) kb'(1) key_inj [of bs kb kb'] by (simp add: indexById_def)
  moreover have "snd kb = b \<Longrightarrow> fst kb = block_id b"
    using assms(1,3) by (auto simp: indexById_def)
  ultimately show ?thesis using kb' k' by auto
qed

text \<open>The working set at line \<open>i\<close>: the index without the anchors inline on earlier lines.\<close>

lemma remainingAt_filter:
  assumes "indexById bs" and "i \<le> length ls"
  shows "remainingAt bs ls i = filter (\<lambda>kb. \<forall>j<i. inlineAt bs ls j \<noteq> Some (snd kb)) bs"
  using assms(2)
proof (induction i)
  case 0
  show ?case by (simp add: remainingAt_0)
next
  case (Suc i)
  then have i: "i < length ls" and IH: "remainingAt bs ls i = filter (\<lambda>kb. \<forall>j<i. inlineAt bs ls j \<noteq> Some (snd kb)) bs"
    by simp_all
  show ?case
  proof (cases "inlineAt bs ls i")
    case None
    then have "remainingAt bs ls (Suc i) = remainingAt bs ls i"
      using i by (simp add: remainingAt_Suc anchorLine_snd inlineAt_def)
    also have "\<dots> = filter (\<lambda>kb. \<forall>j<Suc i. inlineAt bs ls j \<noteq> Some (snd kb)) bs"
      unfolding IH using None by (auto simp: less_Suc_eq intro!: filter_cong)
    finally show ?thesis .
  next
    case (Some b)
    then have "b \<in> set (map snd (remainingAt bs ls i))"
      by (auto simp: inlineAt_def dest: find_in_set)
    then have bin: "b \<in> snd ` set bs"
      unfolding IH by auto
    have "remainingAt bs ls (Suc i) = mapDelete (block_id b) (remainingAt bs ls i)"
      using i Some by (simp add: remainingAt_Suc anchorLine_snd inlineAt_def)
    also have "\<dots> = filter (\<lambda>kb. (\<forall>j<i. inlineAt bs ls j \<noteq> Some (snd kb)) \<and> fst kb \<noteq> block_id b) bs"
      unfolding IH by (simp add: mapDelete_def)
    also have "\<dots> = filter (\<lambda>kb. \<forall>j<Suc i. inlineAt bs ls j \<noteq> Some (snd kb)) bs"
      using Some delete_by_id [OF assms(1) bin]
      by (intro filter_cong) (auto simp: less_Suc_eq)
    finally show ?thesis .
  qed
qed

lemma inlineAt_find:
  assumes "indexById bs" and "i < length ls"
  shows "inlineAt bs ls i =
           find (\<lambda>b. (\<forall>j<i. inlineAt bs ls j \<noteq> Some b) \<and> blockMatches (ls ! i) i b) (map snd bs)"
proof -
  have "map snd (remainingAt bs ls i) = filter (\<lambda>b. \<forall>j<i. inlineAt bs ls j \<noteq> Some b) (map snd bs)"
    using remainingAt_filter [OF assms(1), of i ls] assms(2) by (simp add: filter_map comp_def)
  then show ?thesis
    by (simp add: inlineAt_def find_filter)
qed

lemma inlineAt_matches:
  assumes "indexById bs" and "i < length ls" and "inlineAt bs ls i = Some b"
  shows "b \<in> snd ` set bs \<and> blockMatches (ls ! i) i b \<and> (\<forall>j<i. inlineAt bs ls j \<noteq> Some b)"
  using assms(3) unfolding inlineAt_find [OF assms(1,2)]
  by (auto dest: find_in_set)

lemma inlineAt_once:
  assumes "indexById bs" and "i < length ls" and "j < length ls"
    and "inlineAt bs ls i = Some b" and "inlineAt bs ls j = Some b"
  shows "i = j"
proof (rule ccontr)
  assume "i \<noteq> j"
  then consider "i < j" | "j < i" by linarith
  then show False
  proof cases
    case 1
    with inlineAt_matches [OF assms(1,3,5)] assms(4) show False by auto
  next
    case 2
    with inlineAt_matches [OF assms(1,2,4)] assms(5) show False by auto
  qed
qed

lemma distinct_blocks: "indexById bs \<Longrightarrow> distinct (map snd bs)"
proof -
  assume a: "indexById bs"
  have "inj_on snd (set bs)"
  proof (rule inj_onI)
    fix x y assume "x \<in> set bs" "y \<in> set bs" "snd x = snd y"
    with a show "x = y" by (auto simp: indexById_def intro: prod_eqI)
  qed
  moreover have "distinct bs" using a by (simp add: indexById_def distinct_map)
  ultimately show ?thesis by (simp add: distinct_map)
qed

lemma foldl_syntheticLine_nth:
  "j < length L \<Longrightarrow> L ! j = Some s \<Longrightarrow>
     j < length (foldl syntheticLine L bl)
     \<and> foldl syntheticLine L bl ! j
         = Some (concat (rev (map syntheticSpan (filter (\<lambda>b. startLine b = j) bl))) @ s)"
proof (induction bl arbitrary: L s)
  case Nil
  then show ?case by simp
next
  case (Cons b bl)
  let ?L = "syntheticLine L b"
  have len: "j < length ?L"
    using Cons.prems(1) by (simp add: syntheticLine_def jsAssign_def)
  show ?case
  proof (cases "startLine b = j")
    case True
    then have "?L ! j = Some (syntheticSpan b @ s)"
      using Cons.prems by (simp add: syntheticLine_def jsAssign_def jsLineAt_def)
    from Cons.IH [OF len this] True show ?thesis by simp
  next
    case False
    then have "?L ! j = Some s"
      using Cons.prems by (simp add: syntheticLine_def jsAssign_def nth_append)
    from Cons.IH [OF len this] False show ?thesis by simp
  qed
qed

text \<open>
  Claim C2, as amended. Let the index be keyed by the ids of its anchors. Then
  \<^item> the anchor wrapped into line \<open>i\<close> (inline) is the first anchor of the index, in its
    order, that is not inline on an earlier line, whose marker text line \<open>i\<close> includes
    and whose range holds \<open>i\<close>;
  \<^item> no anchor is inline on two lines;
  \<^item> line \<open>j\<close> of the output is line \<open>j\<close> of the source, with the inline anchor of line
    \<open>j\<close> wrapped into it if there is one, and before it one synthetic span for every
    anchor that starts at line \<open>j\<close> and is inline nowhere, the latest of the index first.
  So every anchor that is inline somewhere or starts at a line of the text is placed
  exactly once. An anchor with a line in its range that includes its marker text is
  still placed synthetically when each such line took an anchor listed before it.
\<close>

theorem anchor_placement:
  assumes "indexById bs"
  shows "distinct (map snd bs)
       \<and> (\<forall>i<length ls. inlineAt bs ls i =
             find (\<lambda>b. (\<forall>j<i. inlineAt bs ls j \<noteq> Some b) \<and> blockMatches (ls ! i) i b) (map snd bs))
       \<and> (\<forall>i<length ls. \<forall>j<length ls. \<forall>b. inlineAt bs ls i = Some b \<and> inlineAt bs ls j = Some b \<longrightarrow> i = j)
       \<and> (\<forall>j<length ls.
             j < length (anchoredLines ls bs)
             \<and> anchoredLines ls bs ! j =
                 Some (concat (rev (map syntheticSpan
                                 (filter (\<lambda>b. startLine b = j \<and> (\<forall>i<length ls. inlineAt bs ls i \<noteq> Some b))
                                    (map snd bs))))
                       @ (case inlineAt bs ls j of None \<Rightarrow> ls ! j | Some b \<Rightarrow> wrapLine (ls ! j) b)))"
proof (intro conjI allI impI)
  show "distinct (map snd bs)" by (rule distinct_blocks [OF assms])
next
  fix i assume "i < length ls"
  then show "inlineAt bs ls i =
      find (\<lambda>b. (\<forall>j<i. inlineAt bs ls j \<noteq> Some b) \<and> blockMatches (ls ! i) i b) (map snd bs)"
    by (rule inlineAt_find [OF assms])
next
  fix i j b
  assume "i < length ls" "j < length ls" "inlineAt bs ls i = Some b \<and> inlineAt bs ls j = Some b"
  then show "i = j" using inlineAt_once [OF assms] by blast
next
  fix j assume j: "j < length ls"
  obtain out rest where ar: "anchorLines bs 0 ls = (out, rest)" by (cases "anchorLines bs 0 ls")
  have out: "out ! j = (case inlineAt bs ls j of None \<Rightarrow> ls ! j | Some b \<Rightarrow> wrapLine (ls ! j) b)"
    using anchorLines_nth [OF j, of bs] ar by (simp add: anchorLine_fst inlineAt_def)
  have lout: "length out = length ls"
    using length_anchorLines [of bs 0 ls] ar by simp
  have "rest = filter (\<lambda>kb. \<forall>i<length ls. inlineAt bs ls i \<noteq> Some (snd kb)) bs"
    using remainingAt_filter [OF assms, of "length ls" ls] remainingAt_length [of bs ls] ar by simp
  then have rest: "map snd rest = filter (\<lambda>b. \<forall>i<length ls. inlineAt bs ls i \<noteq> Some b) (map snd bs)"
    by (simp add: filter_map comp_def)
  have "j < length (map Some out)" "map Some out ! j = Some (out ! j)"
    using j lout by simp_all
  from foldl_syntheticLine_nth [OF this, of "map snd rest"]
  have "j < length (anchoredLines ls bs)
        \<and> anchoredLines ls bs ! j
            = Some (concat (rev (map syntheticSpan (filter (\<lambda>b. startLine b = j) (map snd rest)))) @ out ! j)"
    by (simp add: anchoredLines_def ar)
  then show "j < length (anchoredLines ls bs)"
    and "anchoredLines ls bs ! j =
                 Some (concat (rev (map syntheticSpan
                                 (filter (\<lambda>b. startLine b = j \<and> (\<forall>i<length ls. inlineAt bs ls i \<noteq> Some b))
                                    (map snd bs))))
                       @ (case inlineAt bs ls j of None \<Rightarrow> ls ! j | Some b \<Rightarrow> wrapLine (ls ! j) b))"
    unfolding rest out by (simp_all add: conj_commute)
qed

lemmas anchor_eval = anchoredLines_def anchorLine_def blockMatches_def str_includes_def
  startsWith_def wrapLine_def replaceFirst_def mapDelete_def syntheticLine_def jsAssign_def
  jsLineAt_def exampleIndex_def exampleLines_def blockA_def blockAB_def

theorem anchor_placement_witness:
  "indexById [(''b1'', blockB1), (''b2'', blockB2)]
   \<and> anchoredLines [''first ^b1'', ''second'', ''third''] [(''b1'', blockB1), (''b2'', blockB2)] =
       [Some (''first '' @ blockSpan ''^b1'' @ '' ^b1''),
        Some (syntheticSpan blockB2 @ ''second''),
        Some ''third'']"
  using anchor_placement [of "[(''b1'', blockB1), (''b2'', blockB2)]" "[''first ^b1'', ''second'', ''third'']"]
  by (simp add: anchor_eval indexById_def syntheticSpan_def blockSpan_def blockB1_def blockB2_def)


text \<open>
  The nested item's anchor \<^verbatim>\<open>^ab\<close> has its marker text on line 1, within its range, and
  yet gets a synthetic span: the list's anchor \<^verbatim>\<open>^a\<close>, listed first, has line 1 in its
  range too, and \<^verbatim>\<open>^a\<close> is a part of \<^verbatim>\<open>^ab\<close>.
\<close>

theorem anchor_placement_counterexample:
  "indexById exampleIndex
   \<and> blockMatches (exampleLines ! 1) 1 blockAB
   \<and> anchoredLines exampleLines exampleIndex =
       [Some ''- parent'',
        Some (syntheticSpan blockAB @ ''  - child '' @ blockSpan ''^a'' @ '' ^ab''),
        Some '''',
        Some ''^a'']"
  by (simp add: anchor_eval indexById_def syntheticSpan_def blockSpan_def)

section \<open>Merging documents\<close>

lemma pathsL_nonempty: "p \<in> set (pathsL sel k cs) \<Longrightarrow> p \<noteq> []"
  by (induction cs arbitrary: k) auto

lemma pathsN_Nil_first:
  "pathsN sel n = [] # ps \<Longrightarrow> matches sel n"
proof (cases n)
  case (Text s)
  assume "pathsN sel n = [] # ps"
  with Text show ?thesis by simp
next
  case (Element t as cs)
  assume a: "pathsN sel n = [] # ps"
  show ?thesis
  proof (rule ccontr)
    assume "\<not> matches sel n"
    with a Element have "[] \<in> set (pathsL sel 0 cs)" by simp
    then show False using pathsL_nonempty by blast
  qed
qed

lemma pathsL_first:
  "pathsL sel k cs = (i # q) # ps \<Longrightarrow>
     k \<le> i \<and> i - k < length cs \<and> (\<forall>j < i - k. pathsN sel (cs ! j) = [])
     \<and> (\<exists>ps'. pathsN sel (cs ! (i - k)) = q # ps')"
proof (induction cs arbitrary: k)
  case Nil
  then show ?case by simp
next
  case (Cons c cs)
  show ?case
  proof (cases "pathsN sel c")
    case Nil
    with Cons.prems have "pathsL sel (Suc k) cs = (i # q) # ps" by simp
    from Cons.IH [OF this] obtain ps' where
      k: "Suc k \<le> i" and l: "i - Suc k < length cs"
      and b: "\<forall>j < i - Suc k. pathsN sel (cs ! j) = []"
      and a: "pathsN sel (cs ! (i - Suc k)) = q # ps'"
      by blast
    have e: "i - k = Suc (i - Suc k)" using k by simp
    have "\<forall>j < i - k. pathsN sel ((c # cs) ! j) = []"
      using b Nil unfolding e by (simp add: nth_Cons split: nat.splits)
    moreover have "pathsN sel ((c # cs) ! (i - k)) = q # ps'"
      using a unfolding e by simp
    ultimately show ?thesis using k l e by auto
  next
    case (Cons p' ps')
    with Cons.prems have "i = k" "q = p'" by simp_all
    with Cons show ?thesis by simp
  qed
qed

lemma pathsL_first_intro:
  "k \<le> i \<Longrightarrow> i - k < length cs \<Longrightarrow> (\<forall>j < i - k. pathsN sel (cs ! j) = []) \<Longrightarrow>
   pathsN sel (cs ! (i - k)) = q # ps' \<Longrightarrow> \<exists>ps. pathsL sel k cs = (i # q) # ps"
proof (induction cs arbitrary: k)
  case Nil
  then show ?case by simp
next
  case (Cons c cs)
  show ?case
  proof (cases "i = k")
    case True
    with Cons.prems show ?thesis by simp
  next
    case False
    with Cons.prems have k: "Suc k \<le> i" and l: "i - Suc k < length cs" by auto
    have e: "i - k = Suc (i - Suc k)" using k by simp
    have z: "pathsN sel c = []" using Cons.prems(3) e by auto
    have "\<forall>j < i - Suc k. pathsN sel (cs ! j) = []"
      using Cons.prems(3) e by auto
    moreover have "pathsN sel (cs ! (i - Suc k)) = q # ps'"
      using Cons.prems(4) e by simp
    ultimately obtain ps where "pathsL sel (Suc k) cs = (i # q) # ps"
      using Cons.IH [OF k l] by blast
    with z show ?thesis by simp
  qed
qed

lemma matches_setChildNodes: "matches sel (setChildNodes cs' n) = matches sel n"
  by (cases n; cases sel) (simp_all add: classList_def)

text \<open>The first match of a selector is at a node that matches, and it stays the first match when
  the children of that node are replaced.\<close>

lemma first_match:
  "pathsN sel n = p # ps \<Longrightarrow>
     (\<exists>el. nodeAt n p = Some el \<and> matches sel el)
     \<and> (\<exists>ps'. pathsN sel (updateAt (setChildNodes cs') p n) = p # ps')"
proof (induction p arbitrary: n ps)
  case Nil
  then have m: "matches sel n" by (rule pathsN_Nil_first)
  then obtain t as cs where n: "n = Element t as cs" by (cases n) auto
  from m n have "matches sel (Element t as cs')"
    using matches_setChildNodes [of sel cs' n] by simp
  with m n show ?case by simp
next
  case (Cons i q)
  show ?case
  proof (cases n)
    case (Text s)
    with Cons.prems show ?thesis by simp
  next
    case (Element t as cs)
    have nm: "\<not> matches sel (Element t as cs)"
      using Cons.prems Element by (auto split: if_splits)
    with Cons.prems Element have pl: "pathsL sel 0 cs = (i # q) # ps" by simp
    from pathsL_first [OF pl] obtain ps1 where
      i: "i < length cs" and before: "\<forall>j<i. pathsN sel (cs ! j) = []" and at: "pathsN sel (cs ! i) = q # ps1"
      by auto
    from Cons.IH [OF at] obtain el ps2 where
      el: "nodeAt (cs ! i) q = Some el" "matches sel el"
      and up: "pathsN sel (updateAt (setChildNodes cs') q (cs ! i)) = q # ps2"
      by blast
    let ?cs = "cs[i := updateAt (setChildNodes cs') q (cs ! i)]"
    have "\<exists>ps. pathsL sel 0 ?cs = (i # q) # ps"
    proof (rule pathsL_first_intro)
      show "0 \<le> i" by simp
      show "i - 0 < length ?cs" using i by simp
      show "\<forall>j<i - 0. pathsN sel (?cs ! j) = []" using before i by simp
      show "pathsN sel (?cs ! (i - 0)) = q # ps2" using up i by simp
    qed
    moreover have "\<not> matches sel (Element t as ?cs)"
      using nm matches_setChildNodes [of sel ?cs "Element t as cs"] by simp
    ultimately show ?thesis
      using Element i el by auto
  qed
qed

lemma map_filter_all:
  "\<forall>x \<in> set xs. f x \<noteq> None \<Longrightarrow> List.map_filter f xs = map (\<lambda>x. the (f x)) xs"
  by (induction xs) (auto simp: List.map_filter_simps)

text \<open>
  Claim C3. Merging a non-empty sequence of documents, each with a primary content
  container, returns; afterwards the first document's container holds exactly one
  \<^verbatim>\<open>section\<close> per input document, in input order, the section of a document holding the
  element children of that document's container (its \<^verbatim>\<open>children\<close>; as values, the deep
  copies are the nodes themselves). \<^verbatim>\<open>this.docs\<close> is the first input entry alone, so front
  matter and file are the first document's. Every other document of the heap is as it
  was: the content was copied, not moved.
\<close>

theorem merge_sections:
  assumes "ds \<noteq> []" and "\<forall>d \<in> set ds. containerOf (documents w (doc d)) \<noteq> None"
  shows "\<exists>m' w'. mergeDoc m w ds = Inr (m', w')
           \<and> docs m' = [hd ds]
           \<and> map_option children_of (containerOf (documents w' (doc (hd ds))))
               = Some (map (\<lambda>d. sectionFrom (the (containerOf (documents w (doc d))))) ds)
           \<and> docTitle (documents w' (doc (hd ds))) = docTitle (documents w (doc (hd ds)))
           \<and> (\<forall>r. r \<noteq> doc (hd ds) \<longrightarrow> documents w' r = documents w r)"
proof -
  from assms(1) obtain d0 rest where ds: "ds = d0 # rest" by (cases ds) auto
  let ?doc0 = "documents w (doc d0)"
  let ?secs = "map (\<lambda>d. sectionFrom (the (containerOf (documents w (doc d))))) ds"
  have secs: "List.map_filter (\<lambda>d. sectionOf (documents w (doc d))) ds = ?secs"
    using assms(2) by (subst map_filter_all) (auto simp: sectionOf_def)
  from assms(2) ds have "containerOf ?doc0 \<noteq> None" by simp
  then obtain p ps where pp: "pathsN containerSel (docBody ?doc0) = p # ps"
    by (auto simp: containerOf_def docQuery_def docQueryAll_def split: list.splits option.splits)
  then have q: "docQuery containerSel ?doc0 = Some p"
    by (simp add: docQuery_def docQueryAll_def)
  from first_match [OF pp, of ?secs] obtain el ps' where
    el: "nodeAt (docBody ?doc0) p = Some el"
    and up: "pathsN containerSel (updateAt (setChildNodes ?secs) p (docBody ?doc0)) = p # ps'"
    by blast
  let ?doc0' = "?doc0\<lparr>docBody := updateAt (setChildNodes ?secs) p (docBody ?doc0)\<rparr>"
  have mg: "mergeDoc m w ds = Inr (m\<lparr>docs := [d0]\<rparr>, w\<lparr>documents := (documents w)(doc d0 := ?doc0')\<rparr>)"
    using q secs ds by (simp add: mergeDoc_def Let_def)
  have c: "containerOf ?doc0' = Some (setChildNodes ?secs el)"
    using up el by (simp add: containerOf_def docQuery_def docQueryAll_def nodeAt_updateAt_same)
  have "children_of (setChildNodes ?secs el) = ?secs"
    using first_match [OF pp, of ?secs] el by (cases el) auto
  with c mg ds show ?thesis by simp
qed

lemmas merge_eval = mergeDoc_def sectionOf_def sectionFrom_def containerOf_def docQuery_def
  docQueryAll_def containerSel_def classList_def asciiWhitespace_def exampleWorld_def exampleDoc_def
  exampleDocs_def examplePara_def List.map_filter_simps

theorem merge_sections_witness:
  "containerOf (documents exampleWorld 0)
     = Some (Element ''div'' [(''class'', ''markdown-preview-view markdown-rendered'')]
               [Element ''h1'' [] [Text ''a''], Text ''loose'', examplePara])
   \<and> containerOf (documents exampleWorld 1)
     = Some (Element ''div'' [(''class'', ''markdown-preview-view markdown-rendered'')]
               [Element ''h1'' [] [Text ''b'']])
   \<and> (case mergeDoc folderModal exampleWorld exampleDocs of
         Inl e \<Rightarrow> False
       | Inr (m', w') \<Rightarrow>
           docs m' = [\<lparr>doc = 0, frontMatter = [], tfile = exampleFile\<rparr>]
           \<and> documents w' 0
               = exampleDoc ''a'' [Element ''section'' [] [Element ''h1'' [] [Text ''a''], examplePara],
                                  Element ''section'' [] [Element ''h1'' [] [Text ''b'']]]
           \<and> documents w' 1 = documents exampleWorld 1)"
  using merge_sections [of exampleDocs exampleWorld folderModal]
  by (simp add: merge_eval Let_def)

section \<open>The documents of a render pass\<close>

lemma renderStages_world:
  "randomPos w' = randomPos w \<Longrightarrow>
     renderStages app pf ut f conf x w' = renderStages app pf ut f conf x w"
  by (simp add: renderStages_def Let_def split: option.splits)

lemma renderMarkdown_stages:
  "renderMarkdown app pf ut f conf x w =
     (case renderStages app pf ut f conf x w of
        None \<Rightarrow> Inl TypeError
      | Some st \<Rightarrow>
          Inr (\<lparr>doc = freshRef w, frontMatter = nullish (fileFrontMatter app f) [], tfile = f\<rparr>,
               (if viewData app f = None \<or> viewData app f = Some []
                then w\<lparr>activePath := Some (path f), notices := notices w @ [''data is empty!'']\<rparr>
                else w\<lparr>activePath := Some (path f)\<rparr>)
               \<lparr>randomPos := randomPos w + 16,
                documents := (documents w)
                  (freshRef w :=
                     \<lparr>docTitle = stripAndCollapse
                                   (nullish (case x of None \<Rightarrow> None | Some e \<Rightarrow> extraTitle e) (basename f)),
                      docBody = Element ''body'' [] [cloned st]\<rparr>),
                freshRef := Suc (freshRef w)\<rparr>))"
proof -
  have a: "renderStages app pf ut f conf x (w\<lparr>activePath := Some (path f)\<rparr>)
             = renderStages app pf ut f conf x w"
    by (rule renderStages_world) simp
  have b: "renderStages app pf ut f conf x
             (w\<lparr>activePath := Some (path f), notices := notices w @ [''data is empty!'']\<rparr>)
             = renderStages app pf ut f conf x w"
    by (rule renderStages_world) simp
  show ?thesis
    by (cases "renderStages app pf ut f conf x w")
       (simp_all add: renderMarkdown_def Let_def allocDocument_def a b)
qed

lemma renderMarkdown_returns:
  assumes "\<forall>md p. markdownRender app md p \<noteq> None"
  shows "\<exists>d w'. renderMarkdown app pf ut f conf x w = Inr (d, w')"
proof -
  obtain items where "markdownRender app (anchoredMarkdown (viewData app f) (fileBlocks app f)) (path f) = Some items"
    using assms by (metis option.exhaust)
  then obtain st where "renderStages app pf ut f conf x w = Some st"
    by (simp add: renderStages_def Let_def)
  then show ?thesis
    by (simp add: renderMarkdown_stages)
qed

lemma renderEach_returns:
  assumes "\<forall>md p. markdownRender app md p \<noteq> None"
  shows "\<exists>ds w'. renderEach app pf ut conf fs w = Inr (ds, w') \<and> length ds = length fs"
proof (induction fs arbitrary: w)
  case Nil
  show ?case by simp
next
  case (Cons fx fs)
  obtain d w1 where r: "renderMarkdown app pf ut (fst fx) conf (snd fx) w = Inr (d, w1)"
    using renderMarkdown_returns [OF assms] by blast
  obtain ds w2 where "renderEach app pf ut conf fs w1 = Inr (ds, w2)" "length ds = length fs"
    using Cons.IH by blast
  with r show ?case by simp
qed

lemma encodeAt_returns:
  assumes "\<forall>s. encodeURIComponent pf s \<noteq> None"
  shows "\<exists>n'. encodeAt pf ps n = Inr n'"
proof (induction ps arbitrary: n)
  case Nil
  show ?case by simp
next
  case (Cons p ps)
  show ?case
  proof (cases "nodeAt n p")
    case None
    then show ?thesis using Cons.IH by simp
  next
    case (Some el)
    obtain e where "encodeURIComponent pf (serializeHTML pf (children_of el)) = Some e"
      using assms by (metis option.exhaust)
    then show ?thesis using Some Cons.IH by (simp add: encodeSpan_def)
  qed
qed

lemma fixDocs_returns:
  assumes "\<forall>s. encodeURIComponent pf s \<noteq> None"
  shows "\<exists>w'. fixDocs pf ut ds w = Inr w'"
proof (induction ds arbitrary: w)
  case Nil
  show ?case by simp
next
  case (Cons d ds)
  obtain n' where "encodeAt pf
      (rev (docQueryAll embedSel ((documents w (doc d))\<lparr>docBody := modifyDestAndFixAnchors ut (docTitle (documents w (doc d))) (docBody (documents w (doc d)))\<rparr>)))
      (modifyDestAndFixAnchors ut (docTitle (documents w (doc d))) (docBody (documents w (doc d)))) = Inr n'"
    using encodeAt_returns [OF assms] by blast
  then show ?case
    using Cons.IH by (simp add: fixDoc_def encodeEmbeds_def)
qed

lemma mergeDoc_returns:
  "ds \<noteq> [] \<Longrightarrow> \<exists>m' w'. mergeDoc m w ds = Inr (m', w')"
  by (cases ds) (simp_all add: mergeDoc_def Let_def)

lemma appendWebview_fields:
  "docs (appendWebview pf w m e) = docs m"
  "length (webviews (appendWebview pf w m e)) = Suc (length (webviews m))"
  "shownSurfaces (appendWebview pf w m e) = shownSurfaces m @ [length (webviews m)]"
  by (simp_all add: appendWebview_def Let_def shownSurfaces_def)

lemma foldl_appendWebview:
  "docs (foldl (appendWebview pf w) m es) = docs m
   \<and> length (shownSurfaces (foldl (appendWebview pf w) m es)) = length (shownSurfaces m) + length es"
  by (induction es arbitrary: m) (simp_all add: appendWebview_fields)

text \<open>
  Claim C1 does not hold of the code. \<^verbatim>\<open>mergeDoc\<close> merges the content into the first
  document and assigns \<^verbatim>\<open>this.docs\<close> the merged document alone, but \<^verbatim>\<open>renderFiles\<close>
  then assigns \<^verbatim>\<open>this.docs\<close> the mapped array of all rendered documents. So for a folder
  with multiple-output mode off, when rendering and encoding raise nothing, the dialog
  holds as many documents as the folder has files, and \<^verbatim>\<open>appendWebviews\<close> shows a
  preview surface for each of them.
\<close>

theorem every_rendered_document_gets_a_surface:
  assumes "modalFile m = IsFolder fo" and "multiple m \<noteq> Some True"
    and "traverseFolder ut fo \<noteq> []"
    and "\<forall>md p. markdownRender app md p \<noteq> None"
    and "\<forall>s. encodeURIComponent pf s \<noteq> None"
  shows "\<exists>m' w'. appendWebviews app pf ut True m w = Inr (m', w')
           \<and> length (docs m') = length (traverseFolder ut fo)
           \<and> length (shownSurfaces m') = length (traverseFolder ut fo)"
proof -
  let ?fs = "map (\<lambda>f. (f, None)) (traverseFolder ut fo)"
  obtain ds w1 where rs: "renderEach app pf ut (config m) ?fs w = Inr (ds, w1)" and len: "length ds = length ?fs"
    using renderEach_returns [OF assms(4), of pf ut "config m" ?fs w] by auto
  then have src: "renderSources app pf ut m w = Inr (ds, w1)"
    using assms(1) by (simp add: renderSources_def)
  have "ds \<noteq> []" using len assms(3) by auto
  then obtain m1 w2 where mg: "mergeDoc m w1 ds = Inr (m1, w2)"
    using mergeDoc_returns by blast
  obtain w3 where fx: "fixDocs pf ut ds w2 = Inr w3"
    using fixDocs_returns [OF assms(5)] by blast
  have rf: "renderFiles app pf ut m w = Inr (m1\<lparr>docs := ds\<rparr>, w3)"
    using src mg fx assms(2) by (simp add: renderFiles_def)
  show ?thesis
    using rf len foldl_appendWebview [of pf w3 "m1\<lparr>docs := ds, previewItems := []\<rparr>" "enumerate 0 ds"]
    by (simp add: appendWebviews_def shownSurfaces_def)
qed

theorem every_rendered_document_gets_a_surface_witness:
  "\<exists>m' w'. appendWebviews exampleApp examplePlatform exampleUtils True folderModal exampleWorld = Inr (m', w')
      \<and> multiple folderModal = None
      \<and> traverseFolder exampleUtils \<lparr>folderPath = ''notes'', folderName = ''notes''\<rparr> = [exampleFile, exampleFile2]
      \<and> length (docs m') = 2 \<and> length (shownSurfaces m') = 2"
proof -
  let ?fo = "\<lparr>folderPath = ''notes'', folderName = ''notes''\<rparr>"
  have f: "modalFile folderModal = IsFolder ?fo" and m: "multiple folderModal = None"
    by (simp_all add: folderModal_def constructor_def)
  have t: "traverseFolder exampleUtils ?fo = [exampleFile, exampleFile2]"
    by (simp add: exampleUtils_def)
  have r: "\<forall>md p. markdownRender exampleApp md p \<noteq> None"
    by (simp add: exampleApp_def)
  have e: "\<forall>s. encodeURIComponent examplePlatform s \<noteq> None"
    by (simp add: examplePlatform_def)
  from every_rendered_document_gets_a_surface [OF f _ _ r e, of exampleUtils exampleWorld] m t
  show ?thesis by auto
qed

section \<open>Embedded content: encoding and decoding\<close>

lemma encodeAt_append:
  "encodeAt pf (ps @ qs) n = (case encodeAt pf ps n of Inl e \<Rightarrow> Inl e | Inr n' \<Rightarrow> encodeAt pf qs n')"
  by (induction ps arbitrary: n) (auto split: option.splits sum.splits)

lemma encodeAt_child:
  "i < length cs \<Longrightarrow>
   encodeAt pf (map (Cons i) ps) (Element t as cs) =
     (case encodeAt pf ps (cs ! i) of Inl e \<Rightarrow> Inl e | Inr c' \<Rightarrow> Inr (Element t as (cs[i := c'])))"
proof (induction ps arbitrary: cs)
  case Nil
  then show ?case by simp
next
  case (Cons p ps)
  show ?case
  proof (cases "nodeAt (cs ! i) p")
    case None
    then show ?thesis using Cons by simp
  next
    case (Some el)
    show ?thesis
    proof (cases "encodeSpan pf el")
      case (Inl e)
      then show ?thesis using Some Cons.prems by simp
    next
      case (Inr el')
      have "length (cs[i := updateAt (\<lambda>x. el') p (cs ! i)]) = length cs" by simp
      with Cons.IH [of "cs[i := updateAt (\<lambda>x. el') p (cs ! i)]"] Cons.prems Some Inr
      show ?thesis by (simp split: sum.splits)
    qed
  qed
qed

lemma rev_pathsN:
  "rev (pathsN sel (Element t as cs)) =
     rev (pathsL sel 0 cs) @ (if matches sel (Element t as cs) then [[]] else [])"
  by simp

lemma encodeAt_forest:
  assumes "\<forall>c \<in> set cs. encodeAt pf (rev (pathsN embedSel c)) c = encodedNode pf c"
  shows "encodeAt pf (rev (pathsL embedSel (length pre) cs)) (Element t as (pre @ cs)) =
           (case encodedForest pf cs of Inl e \<Rightarrow> Inl e | Inr cs' \<Rightarrow> Inr (Element t as (pre @ cs')))"
  using assms
proof (induction cs arbitrary: pre)
  case Nil
  show ?case by simp
next
  case (Cons c cs)
  have IH: "encodeAt pf (rev (pathsL embedSel (Suc (length pre)) cs)) (Element t as (pre @ c # cs)) =
           (case encodedForest pf cs of Inl e \<Rightarrow> Inl e | Inr cs' \<Rightarrow> Inr (Element t as (pre @ c # cs')))"
    using Cons.IH [of "pre @ [c]"] Cons.prems by (simp split: sum.splits)
  have c: "encodeAt pf (rev (pathsN embedSel c)) c = encodedNode pf c"
    using Cons.prems by simp
  show ?case
  proof (cases "encodedForest pf cs")
    case (Inl e)
    then show ?thesis using IH by (simp add: encodeAt_append)
  next
    case (Inr cs')
    have "encodeAt pf (map (Cons (length pre)) (rev (pathsN embedSel c))) (Element t as (pre @ c # cs')) =
            (case encodedNode pf c of Inl e \<Rightarrow> Inl e | Inr c' \<Rightarrow> Inr (Element t as (pre @ c' # cs')))"
      using encodeAt_child [of "length pre" "pre @ c # cs'" pf "rev (pathsN embedSel c)" t as] c
      by (simp split: sum.splits)
    then show ?thesis
      using IH Inr by (simp add: encodeAt_append rev_map split: sum.splits)
  qed
qed

text \<open>The loop over the spans in reverse document order computes the bottom-up encoding.\<close>

lemma encodeAt_encodedNode:
  "encodeAt pf (rev (pathsN embedSel n)) n = encodedNode pf n"
proof (induction n)
  case (Text s)
  show ?case by simp
next
  case (Element t as cs)
  have f: "encodeAt pf (rev (pathsL embedSel 0 cs)) (Element t as cs) =
           (case encodedForest pf cs of Inl e \<Rightarrow> Inl e | Inr cs' \<Rightarrow> Inr (Element t as cs'))"
    using encodeAt_forest [of cs pf "[]" t as] Element.IH by (simp split: sum.splits)
  show ?case
  proof (cases "encodedForest pf cs")
    case (Inl e)
    then show ?thesis using f by (simp add: encodeAt_append)
  next
    case (Inr cs')
    have m: "matches embedSel (Element t as cs') = matches embedSel (Element t as cs)"
      by (rule matches_attrs_only)
    show ?thesis
      using f Inr by (simp add: encodeAt_append split: sum.splits)
  qed
qed

lemma decodeForest_texts:
  "\<forall>n \<in> set ns. \<not> isElement n \<Longrightarrow> decodeForest pf k ns = Returns ns"
proof (induction ns)
  case Nil
  show ?case by simp
next
  case (Cons n ns)
  then obtain s where "n = Text s" by (cases n) auto
  with Cons show ?case by simp
qed

text \<open>Decoding, with fuel for the depth of the nesting, undoes the bottom-up encoding of
  well-formed markup.\<close>

lemma decode_encoded:
  shows "uriContract pf \<Longrightarrow> wellFormedEmbeds pf n \<Longrightarrow> encodedNode pf n = Inr n' \<Longrightarrow>
           embedDepth n \<le> k \<Longrightarrow> decodeNode pf k n' = Returns n"
    and "uriContract pf \<Longrightarrow> \<forall>c \<in> set cs. wellFormedEmbeds pf c \<Longrightarrow> encodedForest pf cs = Inr cs' \<Longrightarrow>
           foldr max (map embedDepth cs) 0 \<le> k \<Longrightarrow> decodeForest pf k cs' = Returns cs"
proof (induction pf n and pf cs arbitrary: n' k and cs' k rule: encodedNode_encodedForest.induct)
  case (1 pf s)
  then show ?case by auto
next
  case (2 pf t as cs)
  note uc = "2.prems"(1)
  from "2.prems"(3) obtain cs1 where enc: "encodedForest pf cs = Inr cs1"
    by (auto split: sum.splits)
  have wfc: "\<forall>c \<in> set cs. wellFormedEmbeds pf c" using "2.prems"(2) by simp
  show ?case
  proof (cases "matches embedSel (Element t as cs)")
    case False
    then have n': "n' = Element t as cs1" using "2.prems"(3) enc by simp
    have "foldr max (map embedDepth cs) 0 \<le> k" using "2.prems"(4) False by simp
    from "2.IH" [OF uc wfc enc this]
    have "decodeForest pf k cs1 = Returns cs" .
    moreover have "\<not> matches embedSel (Element t as cs1)"
      using False matches_attrs_only [of embedSel t as cs1 cs] by simp
    ultimately show ?thesis using n' by simp
  next
    case True
    then obtain e where e: "encodeURIComponent pf (serializeHTML pf cs1) = Some e"
      and n': "n' = Element t as (parseHTML pf e)"
      using "2.prems"(3) enc by (auto simp: encodeSpan_def split: option.splits)
    from uc e have "decodeURIComponent pf e = Some (serializeHTML pf cs1)
        \<and> (\<forall>n \<in> set (parseHTML pf e). \<not> isElement n)
        \<and> serializeHTML pf (parseHTML pf e) = e"
      unfolding uriContract_def by blast
    then have dec: "decodeURIComponent pf e = Some (serializeHTML pf cs1)"
      and plain: "\<forall>n \<in> set (parseHTML pf e). \<not> isElement n"
      and ser: "serializeHTML pf (parseHTML pf e) = e"
      by simp_all
    from "2.prems"(2) True enc have rt: "parseHTML pf (serializeHTML pf cs1) = cs1"
      by (simp add: roundTrips_def)
    from "2.prems"(4) True obtain k' where k: "k = Suc k'" and d: "foldr max (map embedDepth cs) 0 \<le> k'"
      by (cases k) auto
    from "2.IH" [OF uc wfc enc d] have inner: "decodeForest pf k' cs1 = Returns cs" .
    have m: "matches embedSel (Element t as (parseHTML pf e))"
      using True matches_attrs_only [of embedSel t as "parseHTML pf e" cs] by simp
    show ?thesis
      unfolding n' using m k dec ser rt inner decodeForest_texts [OF plain, of pf k]
      by simp
  qed
next
  case (3 pf)
  then show ?case by auto
next
  case (4 pf c cs)
  note uc = "4.prems"(1)
  from "4.prems"(3) obtain cs1 c1 where
    e1: "encodedForest pf cs = Inr cs1" and e2: "encodedNode pf c = Inr c1" and cs': "cs' = c1 # cs1"
    by (auto split: sum.splits)
  have "decodeForest pf k cs1 = Returns cs"
    using "4.IH"(1) [OF uc _ e1] "4.prems"(2,4) by simp
  moreover have "decodeNode pf k c1 = Returns c"
    using "4.IH"(2) [OF e1 uc _ e2] "4.prems"(2,4) by simp
  ultimately show ?case using cs' by simp
qed

lemma children_of_setAttribute: "children_of (setAttribute k v n) = children_of n"
  by (cases n) simp_all

lemma children_of_classListAdd: "children_of (classListAdd tok n) = children_of n"
  by (simp add: classListAdd_def Let_def children_of_setAttribute)

lemma children_of_classListRemove: "children_of (classListRemove tok n) = children_of n"
  by (simp add: classListRemove_def children_of_setAttribute)

lemma unterminated_has: "unterminated q s \<Longrightarrow> q \<in> set s"
proof -
  assume "unterminated q s"
  then have "filter (\<lambda>c. c = q) s \<noteq> []"
    by (auto simp: unterminated_def)
  then show ?thesis
    by (auto simp: filter_empty_conv)
qed

lemma unterminated_unsafe: "unterminated (CHR 0x60) s \<Longrightarrow> \<not> templateSafe s"
  using unterminated_has [of "CHR 0x60" s] by (simp add: templateSafe_def)

text \<open>
  Claim C6. Let the platform's URI functions meet their contract, let the document's
  embed markup be well formed, and let the class and the style of the host's body stand
  for themselves in a template literal and the content of its head be one that can be
  URI-encoded. Then \<^verbatim>\<open>encodeEmbeds\<close> returns. When the title of the document stands for
  itself too, the script of \<^verbatim>\<open>makeWebviewJs\<close> for the encoded document, given fuel for the
  depth to which embed spans are nested, returns a document whose body has the content
  the document had before the encoding, under the same title.
  When the title is made of letters, digits, spaces and an odd number of backticks, the
  script does not parse: it raises SyntaxError and nothing is decoded. The title is pasted
  into the script as it is (modal.ts, line 229), unlike the content of the body and of the
  head (lines 210 and 211), which are pasted URI-encoded.
\<close>

theorem embed_round_trip:
  assumes "uriContract pf" and "wellFormedDocument pf d" and "embedDepth (docBody d) \<le> fuel"
    and "templateSafe (templateAttr (hostBodyClass app))"
    and "templateSafe (templateAttr (hostBodyStyle app))"
    and "encodeURIComponent pf (serializeHTML pf (hostHead app)) \<noteq> None"
  shows "\<exists>d'. encodeEmbeds pf d = Inr d'
           \<and> (templateSafe (docTitle d) \<longrightarrow>
                (\<exists>r. runWebviewJs app pf fuel d' = Returns r
                      \<and> children_of (docBody r) = children_of (docBody d)
                      \<and> docTitle r = stripAndCollapse (docTitle d)))
           \<and> (unterminated (CHR 0x60) (docTitle d) \<longrightarrow>
                runWebviewJs app pf fuel d' = Raises SyntaxError)"
proof -
  from assms(2) obtain as cs where body: "docBody d = Element ''body'' as cs"
    by (cases "docBody d") (auto simp: wellFormedDocument_def)
  have nm: "\<not> matches embedSel (Element ''body'' as cs)"
    by (simp add: embedSel_def)
  from assms(2) body obtain cs' where enc: "encodedForest pf cs = Inr cs'" and rt: "roundTrips pf cs'"
    and wfc: "\<forall>c \<in> set cs. wellFormedEmbeds pf c"
    by (auto simp: wellFormedDocument_def split: sum.splits)
  have "encodeAt pf (rev (pathsN embedSel (docBody d))) (docBody d) = Inr (Element ''body'' as cs')"
    using enc nm body by (simp add: encodeAt_encodedNode del: pathsN.simps)
  then have e1: "encodeEmbeds pf d = Inr (d\<lparr>docBody := Element ''body'' as cs'\<rparr>)"
    by (simp add: encodeEmbeds_def docQueryAll_def)
  from rt obtain e where e: "encodeURIComponent pf (serializeHTML pf cs') = Some e"
    and p: "parseHTML pf (serializeHTML pf cs') = cs'"
    by (auto simp: roundTrips_def)
  from assms(1) e have "decodeURIComponent pf e = Some (serializeHTML pf cs') \<and> templateSafe e"
    unfolding uriContract_def by blast
  then have dec: "decodeURIComponent pf e = Some (serializeHTML pf cs')" and safe: "templateSafe e"
    by simp_all
  have "foldr max (map embedDepth cs) 0 \<le> fuel"
    using assms(3) body nm by simp
  from decode_encoded(2) [OF assms(1) wfc enc this]
  have restored: "decodeForest pf fuel cs' = Returns cs" .
  from assms(6) obtain h where h: "encodeURIComponent pf (serializeHTML pf (hostHead app)) = Some h"
    by blast
  from assms(1) h have "decodeURIComponent pf h = Some (serializeHTML pf (hostHead app)) \<and> templateSafe h"
    unfolding uriContract_def by blast
  then have hdec: "decodeURIComponent pf h = Some (serializeHTML pf (hostHead app))" and hsafe: "templateSafe h"
    by simp_all
  have js: "makeWebviewJs app pf (d\<lparr>docBody := Element ''body'' as cs'\<rparr>)
              = Inr \<lparr>bodyText = e, headText = h, classText = templateAttr (hostBodyClass app),
                     styleText = templateAttr (hostBodyStyle app), titleText = docTitle d\<rparr>"
    using e h by (simp add: makeWebviewJs_def)
  show ?thesis
    unfolding e1 using js safe hsafe hdec assms(4,5) dec p restored body unterminated_unsafe [of "docTitle d"]
    by (simp add: runWebviewJs_def executeJavaScript_def scriptAsWritten_def
          children_of_classListAdd children_of_classListRemove)
qed

subsection \<open>The example platform meets the contract\<close>

lemma unhex_hexUpper: "k < 16 \<Longrightarrow> unhexDigit (hexUpper k) = Some k"
  by (simp add: unhexDigit_def hexUpper_def Let_def)

lemma of_char_div16: "(of_char c :: nat) div 16 < 16"
proof -
  have "(of_char c :: nat) < 256"
    by simp
  then show ?thesis by (simp add: div_less_iff_less_mult)
qed

lemma char_of_div_mod: "char_of (16 * ((of_char c :: nat) div 16) + (of_char c :: nat) mod 16) = c"
  by simp

lemma unreserved_not_percent: "unreserved c \<Longrightarrow> c \<noteq> CHR ''%''"
  by (auto simp: unreserved_def Let_def)

lemma percentDecode_Cons:
  "c \<noteq> CHR ''%'' \<Longrightarrow> percentDecode (c # r) = map_option (Cons c) (percentDecode r)"
  by (cases r rule: percentDecode.cases) auto

lemma percentDecode_escape:
  "a < 16 \<Longrightarrow> b < 16 \<Longrightarrow>
   percentDecode (CHR ''%'' # hexUpper a # hexUpper b # r)
     = map_option (Cons (char_of (16 * a + b))) (percentDecode r)"
  by (simp add: unhex_hexUpper)


lemma percentDecode_encodeChar:
  "percentDecode (percentEncodeChar c @ r) = map_option (Cons c) (percentDecode r)"
proof (cases "unreserved c")
  case True
  then show ?thesis
    using percentDecode_Cons [of c r] unreserved_not_percent [of c]
    by (simp add: percentEncodeChar_def del: percentDecode.simps)
next
  case False
  have "percentEncodeChar c @ r
          = CHR ''%'' # hexUpper ((of_char c :: nat) div 16) # hexUpper ((of_char c :: nat) mod 16) # r"
    using False by (simp add: percentEncodeChar_def)
  then show ?thesis
    using percentDecode_escape [of "(of_char c :: nat) div 16" "(of_char c :: nat) mod 16" r]
          of_char_div16 [of c] char_of_div_mod [of c]
    by (simp del: percentDecode.simps)
qed

lemma percentDecode_percentEncode: "percentDecode (percentEncode s) = Some s"
proof (induction s)
  case Nil
  show ?case by (simp add: percentEncode_def)
next
  case (Cons c s)
  then show ?case
    using percentDecode_encodeChar [of c "percentEncode s"]
    by (simp add: percentEncode_def del: percentDecode.simps)
qed

lemma of_char_hexUpper:
  "k < 16 \<Longrightarrow> (of_char (hexUpper k) :: nat) = (if k < 10 then 48 + k else 55 + k)"
  by (simp add: hexUpper_def)

lemma hexUpper_plain: "k < 16 \<Longrightarrow> hexUpper k \<noteq> CHR ''<''"
proof
  assume k: "k < 16" and "hexUpper k = CHR ''<''"
  then have "(of_char (hexUpper k) :: nat) = 60" by simp
  with of_char_hexUpper [OF k] show False by (simp split: if_splits)
qed

lemma unreserved_plain: "unreserved c \<Longrightarrow> c \<noteq> CHR ''<''"
  by (auto simp: unreserved_def Let_def)

lemma percentEncode_plain: "CHR ''<'' \<notin> set (percentEncode s)"
proof (induction s)
  case Nil
  show ?case by (simp add: percentEncode_def)
next
  case (Cons c s)
  have "CHR ''<'' \<notin> set (percentEncodeChar c)"
    using unreserved_plain [of c] hexUpper_plain [OF of_char_div16 [of c]]
          hexUpper_plain [of "(of_char c :: nat) mod 16"]
    by (auto simp: percentEncodeChar_def)
  with Cons show ?case by (simp add: percentEncode_def)
qed

lemma tokenize_Nil: "tokenize n [] = []"
  by (cases n) simp_all

lemma tokenize_plain:
  "CHR ''<'' \<notin> set e \<Longrightarrow> tokenize (length e) e = (if e = [] then [] else [TokText e])"
proof (cases e)
  case Nil
  then show ?thesis by simp
next
  case (Cons c r)
  assume a: "CHR ''<'' \<notin> set e"
  then have tw: "takeWhile (\<lambda>x. x \<noteq> CHR ''<'') (c # r) = c # r"
    and dw: "dropWhile (\<lambda>x. x \<noteq> CHR ''<'') (c # r) = []"
    unfolding Cons by (auto simp add: takeWhile_eq_all_conv)
  have c: "c \<noteq> CHR ''<''" using a Cons by auto
  have "tokenize (Suc (length r)) (c # r)
          = TokText (takeWhile (\<lambda>x. x \<noteq> CHR ''<'') (c # r))
            # tokenize (length r) (dropWhile (\<lambda>x. x \<noteq> CHR ''<'') (c # r))"
    using c by (simp del: takeWhile.simps dropWhile.simps)
  then show ?thesis
    unfolding tw dw using Cons by (simp add: tokenize_Nil)
qed

lemma parseNodes_plain:
  "CHR ''<'' \<notin> set e \<Longrightarrow> parseNodes e = (if e = [] then [] else [Text e])"
  by (simp add: parseNodes_def tokenize_plain)

lemma includes_first: "str_includes s (c # p) \<Longrightarrow> c \<in> set s"
proof (induction s)
  case Nil
  then show ?case by (simp add: str_includes_def)
next
  case (Cons a s)
  show ?case
  proof (cases "startsWith (a # s) (c # p)")
    case True
    then have "a = c" by (simp add: startsWith_def)
    then show ?thesis by simp
  next
    case False
    with Cons.prems have "str_includes s (c # p)"
      by (simp add: str_includes_def)
    with Cons.IH show ?thesis by simp
  qed
qed

lemma hexUpper_range:
  "k < 16 \<Longrightarrow> 48 \<le> (of_char (hexUpper k) :: nat) \<and> (of_char (hexUpper k) :: nat) \<le> 70"
  by (simp add: of_char_hexUpper)

lemma encoded_char:
  assumes "d \<in> set (percentEncodeChar c)"
  shows "d \<noteq> CHR 0x60 \<and> d \<noteq> CHR 0x5C \<and> d \<noteq> CHR 0x0D \<and> d \<noteq> CHR ''$''"
proof (cases "unreserved c")
  case True
  with assms have "d = c" by (simp add: percentEncodeChar_def)
  with True show ?thesis by (auto simp: unreserved_def Let_def)
next
  case False
  with assms consider "d = CHR ''%''" | "d = hexUpper ((of_char c :: nat) div 16)"
    | "d = hexUpper ((of_char c :: nat) mod 16)"
    by (auto simp: percentEncodeChar_def)
  then show ?thesis
  proof cases
    case 1
    then show ?thesis by simp
  next
    case 2
    with hexUpper_range [OF of_char_div16 [of c]] show ?thesis by auto
  next
    case 3
    with hexUpper_range [of "(of_char c :: nat) mod 16"] show ?thesis by auto
  qed
qed

lemma percentEncode_safe: "templateSafe (percentEncode s)"
proof -
  have "\<And>d. d \<in> set (percentEncode s) \<Longrightarrow>
          d \<noteq> CHR 0x60 \<and> d \<noteq> CHR 0x5C \<and> d \<noteq> CHR 0x0D \<and> d \<noteq> CHR ''$''"
    using encoded_char by (auto simp: percentEncode_def)
  then show ?thesis
    using includes_first [of "percentEncode s" "CHR ''$''" "''{''"]
    by (auto simp: templateSafe_def)
qed

lemma examplePlatform_contract: "uriContract examplePlatform"
  using percentDecode_percentEncode percentEncode_plain percentEncode_safe
  by (auto simp add: uriContract_def examplePlatform_def parseNodes_plain serializeNodes_def)

lemma exampleEmbedDoc_wellFormed: "wellFormedDocument examplePlatform exampleEmbedDoc"
  by code_simp

lemma exampleEmbedDoc_depth: "embedDepth (docBody exampleEmbedDoc) \<le> 2"
  by code_simp

lemma exampleBacktickDoc_wellFormed: "wellFormedDocument examplePlatform exampleBacktickDoc"
  by code_simp

lemma exampleBacktickDoc_depth: "embedDepth (docBody exampleBacktickDoc) \<le> 2"
  by code_simp

lemma exampleApp_safe:
  "templateSafe (templateAttr (hostBodyClass exampleApp))"
  "templateSafe (templateAttr (hostBodyStyle exampleApp))"
  "encodeURIComponent examplePlatform (serializeHTML examplePlatform (hostHead exampleApp)) \<noteq> None"
  by code_simp+

lemma exampleTitles:
  "templateSafe (docTitle exampleEmbedDoc)" "unterminated (CHR 0x60) (docTitle exampleBacktickDoc)"
  "stripAndCollapse (docTitle exampleEmbedDoc) = ''a''"
  by code_simp+

theorem embed_round_trip_witness:
  "uriContract examplePlatform
   \<and> wellFormedDocument examplePlatform exampleEmbedDoc \<and> embedDepth (docBody exampleEmbedDoc) \<le> 2
   \<and> wellFormedDocument examplePlatform exampleBacktickDoc \<and> embedDepth (docBody exampleBacktickDoc) \<le> 2
   \<and> templateSafe (templateAttr (hostBodyClass exampleApp))
   \<and> templateSafe (templateAttr (hostBodyStyle exampleApp))
   \<and> encodeURIComponent examplePlatform (serializeHTML examplePlatform (hostHead exampleApp)) \<noteq> None
   \<and> templateSafe (docTitle exampleEmbedDoc)
   \<and> unterminated (CHR 0x60) (docTitle exampleBacktickDoc)
   \<and> (case encodeEmbeds examplePlatform exampleEmbedDoc of
         Inl e \<Rightarrow> False
       | Inr d' \<Rightarrow>
           (case runWebviewJs exampleApp examplePlatform 2 d' of
              Returns r \<Rightarrow> children_of (docBody r) = children_of (docBody exampleEmbedDoc)
                             \<and> docTitle r = ''a''
            | other \<Rightarrow> False))
   \<and> (case encodeEmbeds examplePlatform exampleBacktickDoc of
         Inl e \<Rightarrow> False
       | Inr d' \<Rightarrow> runWebviewJs exampleApp examplePlatform 2 d' = Raises SyntaxError)"
  using embed_round_trip [OF examplePlatform_contract exampleEmbedDoc_wellFormed exampleEmbedDoc_depth exampleApp_safe]
        embed_round_trip [OF examplePlatform_contract exampleBacktickDoc_wellFormed exampleBacktickDoc_depth exampleApp_safe]
        examplePlatform_contract exampleEmbedDoc_wellFormed exampleEmbedDoc_depth
        exampleBacktickDoc_wellFormed exampleBacktickDoc_depth exampleApp_safe exampleTitles
  by auto

text \<open>
  The document with the title \<^verbatim>\<open>a`b\<close>, evaluated: its embed markup is well formed, and the
  script for its encoded form raises SyntaxError.
\<close>

theorem backtick_title_counterexample:
  "wellFormedDocument examplePlatform exampleBacktickDoc
   \<and> (case encodeEmbeds examplePlatform exampleBacktickDoc of
         Inl e \<Rightarrow> False
       | Inr d' \<Rightarrow> runWebviewJs exampleApp examplePlatform 2 d' = Raises SyntaxError)"
  by code_simp

section \<open>The metadata of the internal links\<close>

lemma keepsHref_decision: "keepsHref base el = hrefDecision base (getAttribute ''data-href'' el)"
  by (simp add: keepsHref_def hrefDecision_def linkTitle_def linkAnchor_def hrefParts_def Let_def)

lemma matches_internalLink_repairBelow:
  "matches internalLinkSel (repairBelow base (Element t as cs)) = matches internalLinkSel (Element t as cs)"
  by (simp add: repairBelow_Element internalLinkSel_def classList_def map_of_filter_neq
        del: repairBelow.simps)

lemma pathsL_map_cong:
  "\<forall>c \<in> set cs. pathsN sel (f c) = pathsN sel c \<Longrightarrow> pathsL sel k (map f cs) = pathsL sel k cs"
  by (induction cs arbitrary: k) simp_all

lemma pathsN_repairBelow:
  "pathsN internalLinkSel (repairBelow base n) = pathsN internalLinkSel n"
proof (induction n)
  case (Text s)
  show ?case by simp
next
  case (Element t as cs)
  have "pathsL internalLinkSel 0 (map (repairBelow base) cs) = pathsL internalLinkSel 0 cs"
    using Element.IH by (intro pathsL_map_cong) simp
  moreover have "repairBelow base (Element t as cs)
      = Element t (if matches internalLinkSel (Element t as cs) \<and> \<not> keepsHref base (Element t as cs)
                   then filter (\<lambda>kv. fst kv \<noteq> ''href'') as else as) (map (repairBelow base) cs)"
    by (rule repairBelow_Element)
  ultimately show ?case
    using matches_internalLink_repairBelow [of base t as cs]
    by (simp del: repairBelow.simps)
qed

lemma linkState_repairBelow:
  assumes "matches internalLinkSel el"
  shows "linkState (repairBelow base el)
           = (fst (linkState el), if hrefDecision base (fst (linkState el)) then snd (linkState el) else None)"
proof (cases el)
  case (Text s)
  with assms show ?thesis by simp
next
  case (Element t as cs)
  then show ?thesis
    using assms keepsHref_decision [of base el]
    by (simp add: repairBelow_Element linkState_def map_of_filter_neq del: repairBelow.simps)
qed

lemma pathsN_matches:
  "p \<in> set (pathsN sel n) \<Longrightarrow> \<exists>el. nodeAt n p = Some el \<and> matches sel el"
  and pathsL_matches:
  "p \<in> set (pathsL sel k cs) \<Longrightarrow>
     \<exists>j q el. p = (k + j) # q \<and> j < length cs \<and> nodeAt (cs ! j) q = Some el \<and> matches sel el"
proof (induction sel n and sel k cs arbitrary: p and p rule: pathsN_pathsL.induct)
  case (1 sel s)
  then show ?case by simp
next
  case (2 sel t as cs)
  show ?case
  proof (cases "p = []")
    case True
    with "2.prems" have "matches sel (Element t as cs)"
      using pathsL_nonempty [of p sel 0 cs] by (auto split: if_splits)
    with True show ?thesis by simp
  next
    case False
    with "2.prems" have "p \<in> set (pathsL sel 0 cs)" by (auto split: if_splits)
    from "2.IH" [OF this] show ?thesis by auto
  qed
next
  case (3 sel i)
  then show ?case by simp
next
  case (4 sel i c cs)
  from "4.prems" consider "p \<in> Cons i ` set (pathsN sel c)" | "p \<in> set (pathsL sel (Suc i) cs)"
    by auto
  then show ?case
  proof cases
    case 1
    then obtain q where q: "p = i # q" "q \<in> set (pathsN sel c)" by auto
    from "4.IH"(1) [OF q(2)] obtain el where "nodeAt c q = Some el" "matches sel el" by blast
    with q(1) show ?thesis by (intro exI [of _ 0]) auto
  next
    case 2
    from "4.IH"(2) [OF this] obtain j q el where
      "p = (Suc i + j) # q" "j < length cs" "nodeAt (cs ! j) q = Some el" "matches sel el"
      by blast
    then show ?thesis by (intro exI [of _ "Suc j"]) auto
  qed
qed

lemma linkStates_repairLinks:
  "linkStates (repairLinks base printEl)
     = map (\<lambda>s. (fst s, if hrefDecision base (fst s) then snd s else None)) (linkStates printEl)"
proof (cases printEl)
  case (Text s)
  then show ?thesis by (simp add: linkStates_def repairLinks_def querySelectorAll_def)
next
  case (Element t as cs)
  have q: "querySelectorAll internalLinkSel (repairLinks base printEl) = querySelectorAll internalLinkSel printEl"
    using Element pathsL_map_cong [of cs internalLinkSel "repairBelow base" 0] pathsN_repairBelow
    by (simp add: querySelectorAll_def repairLinks_def)
  have "\<And>p. p \<in> set (querySelectorAll internalLinkSel printEl) \<Longrightarrow>
          (case nodeAt (repairLinks base printEl) p of None \<Rightarrow> (None, None) | Some el \<Rightarrow> linkState el)
          = (\<lambda>s. (fst s, if hrefDecision base (fst s) then snd s else None))
              (case nodeAt printEl p of None \<Rightarrow> (None, None) | Some el \<Rightarrow> linkState el)"
  proof -
    fix p assume p: "p \<in> set (querySelectorAll internalLinkSel printEl)"
    then have ne: "p \<noteq> []"
      using pathsL_nonempty by (auto simp: querySelectorAll_def)
    from p Element obtain j q el where
      "p = j # q" "j < length cs" "nodeAt (cs ! j) q = Some el" "matches internalLinkSel el"
      using pathsL_matches [of p internalLinkSel 0 cs] by (auto simp: querySelectorAll_def)
    then have "nodeAt printEl p = Some el" and m: "matches internalLinkSel el"
      using Element by simp_all
    then show "(case nodeAt (repairLinks base printEl) p of None \<Rightarrow> (None, None) | Some el \<Rightarrow> linkState el)
          = (\<lambda>s. (fst s, if hrefDecision base (fst s) then snd s else None))
              (case nodeAt printEl p of None \<Rightarrow> (None, None) | Some el \<Rightarrow> linkState el)"
      using nodeAt_repairLinks [OF ne, of base printEl] linkState_repairBelow [OF m, of base]
      by simp
  qed
  then show ?thesis
    unfolding linkStates_def q by (simp add: comp_def)
qed

section \<open>Internal links in the returned document\<close>

lemma renderMarkdown_body:
  assumes "renderMarkdown app pf ut f conf x w = Inr (d, w')"
  shows "\<exists>st. renderStages app pf ut f conf x w = Some st
           \<and> docBody (documents w' (doc d)) = Element ''body'' [] [cloned st]"
  using assms
  by (cases "renderStages app pf ut f conf x w") (auto simp add: renderMarkdown_stages)

lemma renderStages_parts:
  assumes "renderStages app pf ut f conf x w = Some st"
  shows "handed st = anchoredMarkdown (viewData app f) (fileBlocks app f)"
    and "repaired st = repairLinks (basename f) (atLoop st)"
    and "cloned st = afterRepair app ut (viewData app f) (generateDocId pf (randomPos w) 16) (path f) (repaired st)"
    and "markdownRender app (handed st) (path f) \<noteq> None"
  using assms
  by (auto simp add: renderStages_def Let_def split: option.splits)

text \<open>
  Claim C4, amended. Let a run of \<^verbatim>\<open>renderMarkdown\<close> on the file \<open>f\<close> return the document
  \<open>d\<close>. The body of \<open>d\<close> holds the print element that was cloned, which is the print
  element the loop over the internal links left, after the wait for the host's deferred
  rendering and the canvas conversion. Let \<open>el\<close> be an \<^verbatim>\<open>a.internal-link\<close> element below the
  print element when the loop starts, with title and anchor the first and second
  \<^verbatim>\<open>#\<close>-separated parts of its \<^verbatim>\<open>data-href\<close>. When the loop ends, the element at the same place
  has the same tag and the same attributes except possibly \<^verbatim>\<open>href\<close>. If the title is
  missing, empty or the base name of \<open>f\<close>, and the anchor starts with \<^verbatim>\<open>^\<close>, the \<^verbatim>\<open>href\<close> is
  kept; in every other case the element has no \<^verbatim>\<open>href\<close> any more. The internal links
  when the loop ends are those of its start, in the same order. When the wait and the
  canvas conversion leave the \<^verbatim>\<open>data-href\<close> and \<^verbatim>\<open>href\<close> of the internal links as they are, the
  internal links of the returned document are the repaired links.
\<close>

theorem internal_link_repair:
  assumes "renderMarkdown app pf ut f conf x w = Inr (d, w')"
  shows "\<exists>st. renderStages app pf ut f conf x w = Some st
           \<and> docBody (documents w' (doc d)) = Element ''body'' [] [cloned st]
           \<and> cloned st = afterRepair app ut (viewData app f) (generateDocId pf (randomPos w) 16) (path f)
                             (repaired st)
           \<and> (\<forall>p el. p \<noteq> [] \<and> nodeAt (atLoop st) p = Some el \<and> matches internalLinkSel el \<longrightarrow>
                 (\<exists>el'. nodeAt (repaired st) p = Some el'
                    \<and> tagName el' = tagName el
                    \<and> (\<forall>k. k \<noteq> ''href'' \<longrightarrow> getAttribute k el' = getAttribute k el)
                    \<and> ((linkTitle el = None \<or> linkTitle el = Some [] \<or> linkTitle el = Some (basename f))
                        \<and> (\<exists>a. linkAnchor el = Some a \<and> startsWith a ''^'')
                        \<longrightarrow> getAttribute ''href'' el' = getAttribute ''href'' el)
                    \<and> (\<not> (linkTitle el = None \<or> linkTitle el = Some [] \<or> linkTitle el = Some (basename f))
                        \<or> \<not> (\<exists>a. linkAnchor el = Some a \<and> startsWith a ''^'')
                        \<longrightarrow> getAttribute ''href'' el' = None)))
           \<and> linkStates (repaired st)
                = map (\<lambda>s. (fst s, if hrefDecision (basename f) (fst s) then snd s else None))
                    (linkStates (atLoop st))
           \<and> (linkStates (cloned st) = linkStates (repaired st) \<longrightarrow>
                linkStates (cloned st)
                  = map (\<lambda>s. (fst s, if hrefDecision (basename f) (fst s) then snd s else None))
                      (linkStates (atLoop st)))"
proof -
  from renderMarkdown_body [OF assms] obtain st where
    st: "renderStages app pf ut f conf x w = Some st"
    and body: "docBody (documents w' (doc d)) = Element ''body'' [] [cloned st]"
    by blast
  note r = renderStages_parts(2) [OF st]
  have link: "\<exists>el'. nodeAt (repaired st) p = Some el'
                    \<and> tagName el' = tagName el
                    \<and> (\<forall>k. k \<noteq> ''href'' \<longrightarrow> getAttribute k el' = getAttribute k el)
                    \<and> ((linkTitle el = None \<or> linkTitle el = Some [] \<or> linkTitle el = Some (basename f))
                        \<and> (\<exists>a. linkAnchor el = Some a \<and> startsWith a ''^'')
                        \<longrightarrow> getAttribute ''href'' el' = getAttribute ''href'' el)
                    \<and> (\<not> (linkTitle el = None \<or> linkTitle el = Some [] \<or> linkTitle el = Some (basename f))
                        \<or> \<not> (\<exists>a. linkAnchor el = Some a \<and> startsWith a ''^'')
                        \<longrightarrow> getAttribute ''href'' el' = None)"
    if p: "p \<noteq> []" and at: "nodeAt (atLoop st) p = Some el" and m: "matches internalLinkSel el"
    for p el
  proof (cases el)
    case (Text s)
    with m show ?thesis by simp
  next
    case (Element t as cs)
    have k: "keepsHref (basename f) el =
               ((linkTitle el = None \<or> linkTitle el = Some [] \<or> linkTitle el = Some (basename f))
                \<and> (\<exists>a. linkAnchor el = Some a \<and> startsWith a ''^''))"
      by (cases "linkAnchor el") (simp_all add: keepsHref_def)
    have "nodeAt (repaired st) p = Some (repairBelow (basename f) el)"
      using p at by (simp add: r nodeAt_repairLinks)
    then show ?thesis
      using m k unfolding Element
      by (auto simp add: repairBelow_Element map_of_filter_neq simp del: repairBelow.simps)
  qed
  have ls: "linkStates (repaired st)
                = map (\<lambda>s. (fst s, if hrefDecision (basename f) (fst s) then snd s else None))
                    (linkStates (atLoop st))"
    unfolding r by (rule linkStates_repairLinks)
  show ?thesis
    using st body link ls renderStages_parts(3) [OF st] by (intro exI [of _ st]) simp
qed

lemma linkApp_stages:
  "map_option (\<lambda>st. (linkStates (atLoop st), linkStates (repaired st), linkStates (cloned st),
                      nodeAt (atLoop st) [0, 2, 0, 1], nodeAt (cloned st) [0, 2, 0, 1]))
     (renderStages linkApp examplePlatform exampleUtils exampleFile (config exampleModal) None exampleWorld)
   = Some ([(Some ''#^b1'', Some ''#^b1''), (Some ''Other#Heading'', Some ''Other#Heading'')],
           [(Some ''#^b1'', Some ''#^b1''), (Some ''Other#Heading'', None)],
           [(Some ''#^b1'', Some ''#^b1''), (Some ''Other#Heading'', None)],
           Some (Element ''a'' [(''class'', ''internal-link''), (''data-href'', ''Other#Heading''), (''href'', ''Other#Heading'')] [Text ''there'']),
           Some (Element ''a'' [(''class'', ''internal-link''), (''data-href'', ''Other#Heading'')] [Text ''there'']))"
  by code_simp

lemma linkApp_renders: "\<forall>md p. markdownRender linkApp md p \<noteq> None"
  by (simp add: linkApp_def exampleApp_def)

theorem internal_link_repair_witness:
  "\<exists>d w' st.
     renderMarkdown linkApp examplePlatform exampleUtils exampleFile (config exampleModal) None exampleWorld = Inr (d, w')
     \<and> renderStages linkApp examplePlatform exampleUtils exampleFile (config exampleModal) None exampleWorld = Some st
     \<and> docBody (documents w' (doc d)) = Element ''body'' [] [cloned st]
     \<and> nodeAt (atLoop st) [0, 2, 0, 1]
         = Some (Element ''a'' [(''class'', ''internal-link''), (''data-href'', ''Other#Heading''), (''href'', ''Other#Heading'')] [Text ''there''])
     \<and> matches internalLinkSel
           (Element ''a'' [(''class'', ''internal-link''), (''data-href'', ''Other#Heading''), (''href'', ''Other#Heading'')] [Text ''there''])
     \<and> linkStates (atLoop st) = [(Some ''#^b1'', Some ''#^b1''), (Some ''Other#Heading'', Some ''Other#Heading'')]
     \<and> linkStates (repaired st) = [(Some ''#^b1'', Some ''#^b1''), (Some ''Other#Heading'', None)]
     \<and> linkStates (cloned st) = linkStates (repaired st)
     \<and> nodeAt (docBody (documents w' (doc d))) [0, 0, 2, 0, 1]
         = Some (Element ''a'' [(''class'', ''internal-link''), (''data-href'', ''Other#Heading'')] [Text ''there''])"
proof -
  obtain d w' where run:
    "renderMarkdown linkApp examplePlatform exampleUtils exampleFile (config exampleModal) None exampleWorld = Inr (d, w')"
    using renderMarkdown_returns [OF linkApp_renders] by blast
  from internal_link_repair [OF run] obtain st where
    st: "renderStages linkApp examplePlatform exampleUtils exampleFile (config exampleModal) None exampleWorld = Some st"
    and body: "docBody (documents w' (doc d)) = Element ''body'' [] [cloned st]"
    by blast
  have m: "matches internalLinkSel
           (Element ''a'' [(''class'', ''internal-link''), (''data-href'', ''Other#Heading''), (''href'', ''Other#Heading'')] [Text ''there''])"
    by code_simp
  show ?thesis
    using run st body m linkApp_stages by (intro exI [of _ d] exI [of _ w'] exI [of _ st]) simp
qed

text \<open>
  The claim as it is written speaks of every internal link of the transformed document.
  A link that the host renders during the wait is in the returned document and was never
  seen by the loop: the note \<^verbatim>\<open>a\<close> embeds the note \<^verbatim>\<open>Other\<close>, whose content arrives during
  the wait, and the returned document holds an internal link to a heading of \<^verbatim>\<open>Other\<close>
  with its \<^verbatim>\<open>href\<close>.
\<close>

theorem late_link_counterexample:
  "(case renderMarkdown embedApp examplePlatform exampleUtils exampleFile (config exampleModal) None exampleWorld of
      Inl e \<Rightarrow> False
    | Inr (d, w') \<Rightarrow> nodeAt (docBody (documents w' (doc d))) [0, 0, 1, 0, 0, 0] = Some lateLink)
   \<and> matches internalLinkSel lateLink
   \<and> linkTitle lateLink = Some ''Other'' \<and> basename exampleFile = ''a''
   \<and> linkAnchor lateLink = Some ''Heading''
   \<and> getAttribute ''href'' lateLink = Some ''Other#Heading''"
  by code_simp

section \<open>Determinism of anchor placement and link repair\<close>







end
